theory Spec2Isabelle
  imports Main "HOL-Library.AList"
begin

section \<open>Data model of the DI validation engine\<close>

text \<open>
  The validation engine (\<^verbatim>\<open>ValidationEngine.ts\<close>) works on facts that two analyzers
  extract from a TypeScript program.  Declarations, types and tokens are compared by
  identity, so every host handle (\<^verbatim>\<open>ts.Symbol\<close>, \<^verbatim>\<open>ts.Type\<close>, \<^verbatim>\<open>TokenId\<close>) is an opaque
  number here.  A source file is its name, its text and the declaration-file flag.  A
  \<^verbatim>\<open>ts.Node\<close> is reduced to what the engine's calls read from it: the source file it
  belongs to, its \<^verbatim>\<open>pos\<close> (where the trivia before it begins) and its \<^verbatim>\<open>end\<close>.
\<close>

type_synonym Symbol = nat
type_synonym TokenId = nat
type_synonym tsType = nat

record SourceFile =
  fileName :: string
  sourceText :: string
  isDeclarationFile :: bool

record Node =
  nodeSourceFile :: SourceFile
  nodePos :: int
  nodeEnd :: int

definition getSourceFile :: "Node \<Rightarrow> SourceFile" where
  "getSourceFile n = nodeSourceFile n"

definition getEnd :: "Node \<Rightarrow> int" where
  "getEnd n = nodeEnd n"

record NormalizedToken =
  token_id :: TokenId
  displayName :: string

text \<open>
  The union types of \<^verbatim>\<open>types.ts\<close>: the registration kind of a binding (the engine tests
  it against the literals \<^verbatim>\<open>'factory'\<close> and \<^verbatim>\<open>'value'\<close>) and the kind of a configuration
  (tested against \<^verbatim>\<open>'builder'\<close>).
\<close>

datatype RegistrationType = ProviderClass | Factory | Value

datatype ConfigType = Builder | Partial

record RegisteredProvider =
  provider_token :: NormalizedToken
  providerClass :: "Symbol option"
  providerClassName :: "string option"
  providerType :: "tsType option"
  registrationType :: RegistrationType
  provider_node :: Node

record RequiredDependency =
  dep_token :: NormalizedToken
  expectedType :: "tsType option"
  parameterIndex :: nat
  parameterNode :: Node

record AnalyzedClass =
  class_name :: string
  class_symbol :: Symbol
  dependencies :: "RequiredDependency list"

text \<open>
  A configuration literal.  The engine reads every field but \<open>listeners\<close>, which is the
  list of (event token, listener token) pairs of the configuration.
\<close>

record AnalyzedConfig =
  config_type :: ConfigType
  builderId :: "string option"
  variableName :: "string option"
  sourceFile :: SourceFile
  localProviders :: "RegisteredProvider list"
  parentConfigs :: "Symbol list"
  config_symbol :: "Symbol option"
  listeners :: "(TokenId \<times> TokenId) list"

record RelatedInformation =
  rel_file :: SourceFile
  rel_start :: int
  rel_length :: int
  rel_message :: string

record DIValidationError =
  err_message :: string
  err_file :: SourceFile
  err_start :: int
  err_length :: int
  err_relatedInformation :: "RelatedInformation list option"

text \<open>The two queries the engine sends to the host's type checker.\<close>

record TypeChecker =
  isTypeAssignableTo :: "tsType \<Rightarrow> tsType \<Rightarrow> bool"
  typeToString :: "tsType \<Rightarrow> string"

text \<open>
  The engine object: the checker, the \<^verbatim>\<open>analyzeSourceFile\<close> methods of its two
  analyzers, and the scanner of the TypeScript library behind the node methods:
  \<^verbatim>\<open>skipTrivia(text, pos)\<close> is the position of the first token of \<open>text\<close> at or after
  \<open>pos\<close>.  The logger only writes progress messages and is left out.
\<close>

record ValidationEngine =
  checker :: TypeChecker
  skipTrivia :: "string \<Rightarrow> int \<Rightarrow> int"
  configAnalyzer_analyzeSourceFile :: "SourceFile \<Rightarrow> AnalyzedConfig list"
  dependencyAnalyzer_analyzeSourceFile :: "SourceFile \<Rightarrow> AnalyzedClass list"

text \<open>
  \<^verbatim>\<open>node.getStart(sourceFile?)\<close> skips the trivia from the node's \<^verbatim>\<open>pos\<close> in the text of the
  file it is given, and in the text of the node's own file when it is given none;
  \<^verbatim>\<open>node.getWidth(sourceFile?)\<close> is \<^verbatim>\<open>getEnd() - getStart(sourceFile)\<close>.  Given a file
  the node does not belong to, both read the wrong text.
\<close>

definition getStart :: "ValidationEngine \<Rightarrow> Node \<Rightarrow> SourceFile option \<Rightarrow> int" where
  "getStart this n sf =
     skipTrivia this
       (sourceText (case sf of None \<Rightarrow> getSourceFile n | Some givenFile \<Rightarrow> givenFile))
       (nodePos n)"

definition getWidth :: "ValidationEngine \<Rightarrow> Node \<Rightarrow> SourceFile option \<Rightarrow> int" where
  "getWidth this n sf = getEnd n - getStart this n sf"

text \<open>
  A JavaScript \<^verbatim>\<open>Map\<close> iterates in insertion order and \<^verbatim>\<open>set\<close> on a present key keeps
  the key's place: an association list with \<^const>\<open>AList.update\<close> for \<^verbatim>\<open>set\<close> and
  \<^const>\<open>map_of\<close> for \<^verbatim>\<open>get\<close>.  The resolved bindings are only ever looked up, so they
  are a map.
\<close>

type_synonym ConfigMap = "(Symbol \<times> AnalyzedConfig) list"
type_synonym ClassMap = "(Symbol \<times> AnalyzedClass) list"
type_synonym ProviderMap = "(Symbol \<times> RegisteredProvider) list"
type_synonym ProvidedTokens = "TokenId \<rightharpoonup> RegisteredProvider"

section \<open>Strings\<close>

text \<open>A template literal prints a non-negative integer in decimal.\<close>

function numberToString :: "nat \<Rightarrow> string" where
  "numberToString n =
     (if n < 10 then [char_of (48 + n)]
      else numberToString (n div 10) @ [char_of (48 + n mod 10)])"
  by pat_completeness auto
termination
  by (relation "measure id") auto

text \<open>\<^verbatim>\<open>a || b\<close> on optional strings: the empty string is falsy like \<^verbatim>\<open>undefined\<close>.\<close>

definition orString :: "string option \<Rightarrow> string \<Rightarrow> string" where
  "orString a b = (case a of None \<Rightarrow> b | Some s \<Rightarrow> if s = [] then b else s)"

text \<open>\<^verbatim>\<open>'${s}'\<close> inside a template literal: the text between two apostrophes.\<close>

definition quoted :: "string \<Rightarrow> string" where
  "quoted s = CHR 0x27 # s @ [CHR 0x27]"

text \<open>The light-bulb emoji of the remediation hint, as its UTF-8 bytes.\<close>

definition lightBulb :: string where
  "lightBulb = [CHR 0xF0, CHR 0x9F, CHR 0x92, CHR 0xA1]"

section \<open>Checking one class\<close>

definition createMissingDependencyError ::
  "ValidationEngine \<Rightarrow> AnalyzedClass \<Rightarrow> RequiredDependency \<Rightarrow> RegisteredProvider
     \<Rightarrow> AnalyzedConfig \<Rightarrow> DIValidationError" where
  "createMissingDependencyError this analyzedClass dependency provider config =
     (let className = class_name analyzedClass;
          tokenName = displayName (dep_token dependency);
          theBuilderId =
            orString (builderId config) (orString (variableName config) ''unknown'');
          paramIndex = parameterIndex dependency;
          errorNode = provider_node provider;
          errorSourceFile = sourceFile config
      in \<lparr> err_message =
             ''[WireDI] Missing dependency: '' @ quoted className @ '' requires ''
               @ quoted tokenName @ '' but it's not registered\<newline>\<newline>''
               @ ''The service '' @ quoted className @ '' expects '' @ quoted tokenName
               @ '' as parameter #'' @ numberToString paramIndex @ '', ''
               @ ''but this token is not provided in the '' @ quoted theBuilderId
               @ '' configuration or its partials.\<newline>\<newline>''
               @ lightBulb @ '' Fix: Add '' @ quoted (''{ token: '' @ tokenName @ '' }'')
               @ '' to your injections array.'',
           err_file = errorSourceFile,
           err_start = getStart this errorNode (Some errorSourceFile),
           err_length = getWidth this errorNode (Some errorSourceFile),
           err_relatedInformation = Some
             [\<lparr> rel_file = getSourceFile (parameterNode dependency),
                rel_start = getStart this (parameterNode dependency) None,
                rel_length = getWidth this (parameterNode dependency) None,
                rel_message = ''The dependency '' @ quoted tokenName @ '' is required here'' \<rparr>] \<rparr>)"

text \<open>
  The error that \<^verbatim>\<open>checkTypeCompatibility\<close> builds inside \<^verbatim>\<open>if (!isCompatible)\<close>, for
  the expected type and the provider type it has just compared.
\<close>

definition typeMismatchError ::
  "ValidationEngine \<Rightarrow> RequiredDependency \<Rightarrow> RegisteredProvider \<Rightarrow> AnalyzedClass
     \<Rightarrow> tsType \<Rightarrow> tsType \<Rightarrow> DIValidationError" where
  "typeMismatchError this dependency registeredProvider analyzedClass expected provided =
     (let expectedTypeName = typeToString (checker this) expected;
          providerTypeName = typeToString (checker this) provided;
          className = class_name analyzedClass;
          tokenName = displayName (dep_token dependency);
          paramIndex = parameterIndex dependency;
          errorNode = provider_node registeredProvider;
          errorSourceFile = getSourceFile errorNode
      in \<lparr> err_message =
             ''[WireDI] Type mismatch: Provider doesn't match expected type\<newline>\<newline>''
               @ ''Service '' @ quoted className @ '' expects type ''
               @ quoted expectedTypeName @ '' for '' @ quoted tokenName
               @ '' (parameter #'' @ numberToString paramIndex @ ''),\<newline>''
               @ ''but the registered provider ''
               @ quoted (orString (providerClassName registeredProvider) ''unknown'')
               @ '' '' @ ''returns '' @ quoted providerTypeName
               @ ''.\<newline>\<newline>''
               @ lightBulb @ '' Fix: Register a provider that implements ''
               @ quoted expectedTypeName @ '' or use a factory to adapt the type.'',
           err_file = errorSourceFile,
           err_start = getStart this errorNode (Some errorSourceFile),
           err_length = getWidth this errorNode (Some errorSourceFile),
           err_relatedInformation = Some
             [\<lparr> rel_file = getSourceFile (parameterNode dependency),
                rel_start = getStart this (parameterNode dependency) None,
                rel_length = getWidth this (parameterNode dependency) None,
                rel_message = ''The type '' @ quoted expectedTypeName
                                @ '' is expected here'' \<rparr>] \<rparr>)"

definition checkTypeCompatibility ::
  "ValidationEngine \<Rightarrow> RequiredDependency \<Rightarrow> RegisteredProvider \<Rightarrow> AnalyzedClass
     \<Rightarrow> AnalyzedConfig \<Rightarrow> DIValidationError option" where
  "checkTypeCompatibility this dependency registeredProvider analyzedClass config =
     (case expectedType dependency of
        None \<Rightarrow> None
      | Some expected \<Rightarrow>
     (case providerType registeredProvider of
        None \<Rightarrow> None
      | Some provided \<Rightarrow>
          if registrationType registeredProvider = Factory
             \<or> registrationType registeredProvider = Value
          then None
          else if \<not> isTypeAssignableTo (checker this) provided expected
          then Some (typeMismatchError this dependency registeredProvider analyzedClass
                       expected provided)
          else None))"

text \<open>
  The loop of \<^verbatim>\<open>validateClassDependencies\<close> over the dependencies of the class, with the
  list \<open>errors\<close> it pushes to.
\<close>

fun validateClassDependencies_loop ::
  "ValidationEngine \<Rightarrow> AnalyzedClass \<Rightarrow> ProvidedTokens \<Rightarrow> RegisteredProvider
     \<Rightarrow> AnalyzedConfig \<Rightarrow> RequiredDependency list \<Rightarrow> DIValidationError list
     \<Rightarrow> DIValidationError list" where
  "validateClassDependencies_loop this analyzedClass providedTokens provider config [] errors =
     errors"
| "validateClassDependencies_loop this analyzedClass providedTokens provider config
     (dependency # rest) errors =
     (case providedTokens (token_id (dep_token dependency)) of
        None \<Rightarrow>
          validateClassDependencies_loop this analyzedClass providedTokens provider config rest
            (errors @ [createMissingDependencyError this analyzedClass dependency provider config])
      | Some registeredProvider \<Rightarrow>
          (case checkTypeCompatibility this dependency registeredProvider analyzedClass config of
             Some typeError \<Rightarrow>
               validateClassDependencies_loop this analyzedClass providedTokens provider config
                 rest (errors @ [typeError])
           | None \<Rightarrow>
               validateClassDependencies_loop this analyzedClass providedTokens provider config
                 rest errors))"

definition validateClassDependencies ::
  "ValidationEngine \<Rightarrow> AnalyzedClass \<Rightarrow> ProvidedTokens \<Rightarrow> RegisteredProvider
     \<Rightarrow> AnalyzedConfig \<Rightarrow> DIValidationError list" where
  "validateClassDependencies this analyzedClass providedTokens provider config =
     validateClassDependencies_loop this analyzedClass providedTokens provider config
       (dependencies analyzedClass) []"

section \<open>Collecting the classes to validate\<close>

text \<open>The first loop of \<^verbatim>\<open>collectClassesToValidate\<close>: the local providers.\<close>

fun collectLocalProviders :: "RegisteredProvider list \<Rightarrow> ProviderMap \<Rightarrow> ProviderMap" where
  "collectLocalProviders [] classes = classes"
| "collectLocalProviders (provider # rest) classes =
     (case providerClass provider of
        Some classSymbol \<Rightarrow> collectLocalProviders rest (AList.update classSymbol provider classes)
      | None \<Rightarrow> collectLocalProviders rest classes)"

text \<open>The inner loop over \<open>parentClasses\<close>: a class that is already there stays.\<close>

fun mergeParentClasses :: "ProviderMap \<Rightarrow> ProviderMap \<Rightarrow> ProviderMap" where
  "mergeParentClasses [] classes = classes"
| "mergeParentClasses ((classSymbol, provider) # rest) classes =
     (if map_of classes classSymbol = None
      then mergeParentClasses rest (AList.update classSymbol provider classes)
      else mergeParentClasses rest classes)"

text \<open>
  \<^verbatim>\<open>collectClassesToValidate\<close> calls itself on every parent that the configuration map
  knows.  It receives \<open>visitedSet\<close> and hands it on, and neither reads nor extends it, so
  nothing bounds the recursion on a cyclic \<^verbatim>\<open>extends\<close> graph.  The first argument is the
  number of nested calls the call stack still has room for; \<open>None\<close> is the
  \<^verbatim>\<open>RangeError\<close> of an exhausted stack.  \<open>collectParentClasses\<close> is the loop over
  \<open>parentConfigs\<close>.
\<close>

fun collectClassesToValidate ::
  "nat \<Rightarrow> AnalyzedConfig \<Rightarrow> ConfigMap \<Rightarrow> Symbol set \<Rightarrow> ProviderMap option"
and collectParentClasses ::
  "nat \<Rightarrow> Symbol list \<Rightarrow> ConfigMap \<Rightarrow> Symbol set \<Rightarrow> ProviderMap \<Rightarrow> ProviderMap option"
where
  "collectClassesToValidate 0 config allConfigs visitedSet = None"
| "collectClassesToValidate (Suc depth) config allConfigs visitedSet =
     collectParentClasses depth (parentConfigs config) allConfigs visitedSet
       (collectLocalProviders (localProviders config) [])"
| "collectParentClasses depth [] allConfigs visitedSet classes = Some classes"
| "collectParentClasses depth (parentSymbol # rest) allConfigs visitedSet classes =
     (case map_of allConfigs parentSymbol of
        None \<Rightarrow> collectParentClasses depth rest allConfigs visitedSet classes
      | Some parentConfig \<Rightarrow>
          (case collectClassesToValidate depth parentConfig allConfigs visitedSet of
             None \<Rightarrow> None
           | Some parentClasses \<Rightarrow>
               collectParentClasses depth rest allConfigs visitedSet
                 (mergeParentClasses parentClasses classes)))"

text \<open>
  The configurations on which \<^verbatim>\<open>collectClassesToValidate\<close> is entered, in call order:
  the same recursion, recording the identity of each configuration it is called on.
\<close>

fun collectClassesToValidate_calls ::
  "nat \<Rightarrow> Symbol \<Rightarrow> AnalyzedConfig \<Rightarrow> ConfigMap \<Rightarrow> Symbol set \<Rightarrow> Symbol list option"
and collectParentClasses_calls ::
  "nat \<Rightarrow> Symbol list \<Rightarrow> ConfigMap \<Rightarrow> Symbol set \<Rightarrow> Symbol list \<Rightarrow> Symbol list option"
where
  "collectClassesToValidate_calls 0 configSymbol config allConfigs visitedSet = None"
| "collectClassesToValidate_calls (Suc depth) configSymbol config allConfigs visitedSet =
     collectParentClasses_calls depth (parentConfigs config) allConfigs visitedSet
       [configSymbol]"
| "collectParentClasses_calls depth [] allConfigs visitedSet calls = Some calls"
| "collectParentClasses_calls depth (parentSymbol # rest) allConfigs visitedSet calls =
     (case map_of allConfigs parentSymbol of
        None \<Rightarrow> collectParentClasses_calls depth rest allConfigs visitedSet calls
      | Some parentConfig \<Rightarrow>
          (case collectClassesToValidate_calls depth parentSymbol parentConfig allConfigs
                  visitedSet of
             None \<Rightarrow> None
           | Some parentCalls \<Rightarrow>
               collectParentClasses_calls depth rest allConfigs visitedSet
                 (calls @ parentCalls)))"

section \<open>Resolving the provided tokens\<close>

text \<open>The overlay of a configuration's own \<open>localProviders\<close>, each keyed by its token.\<close>

fun overlayLocalProviders :: "RegisteredProvider list \<Rightarrow> ProvidedTokens \<Rightarrow> ProvidedTokens" where
  "overlayLocalProviders [] result = result"
| "overlayLocalProviders (provider # rest) result =
     overlayLocalProviders rest (result(token_id (provider_token provider) \<mapsto> provider))"

text \<open>
  Modelled from the spec: \<^verbatim>\<open>resolveAllProvidedTokens\<close> is a method of the configuration
  analyzer (\<^verbatim>\<open>ConfigurationAnalyzer.ts\<close>), of which the engine is only a caller.  It starts
  with an empty mapping, recurses into each parent of \<open>parentConfigs\<close> unless that
  configuration is already in \<open>visited\<close>, merges each parent's resolved mapping in, then
  overlays the configuration's own \<open>localProviders\<close> and returns the merged mapping.  The
  set \<open>visited\<close> is shared by all the calls, so it is returned with the mapping.  A parent
  that is absent from the configuration map is skipped.  As above the first argument
  bounds the depth of the recursion.  \<open>resolveParents\<close> is the loop over \<open>parentConfigs\<close>.
\<close>

fun resolveAllProvidedTokens ::
  "nat \<Rightarrow> AnalyzedConfig \<Rightarrow> ConfigMap \<Rightarrow> Symbol set \<Rightarrow> (ProvidedTokens \<times> Symbol set) option"
and resolveParents ::
  "nat \<Rightarrow> Symbol list \<Rightarrow> ConfigMap \<Rightarrow> Symbol set \<Rightarrow> ProvidedTokens
     \<Rightarrow> (ProvidedTokens \<times> Symbol set) option"
where
  "resolveAllProvidedTokens 0 config allConfigs visited = None"
| "resolveAllProvidedTokens (Suc depth) config allConfigs visited =
     (case resolveParents depth (parentConfigs config) allConfigs visited Map.empty of
        None \<Rightarrow> None
      | Some (result, visited') \<Rightarrow>
          Some (overlayLocalProviders (localProviders config) result, visited'))"
| "resolveParents depth [] allConfigs visited result = Some (result, visited)"
| "resolveParents depth (parentSymbol # rest) allConfigs visited result =
     (case map_of allConfigs parentSymbol of
        None \<Rightarrow> resolveParents depth rest allConfigs visited result
      | Some parentConfig \<Rightarrow>
          if parentSymbol \<in> visited
          then resolveParents depth rest allConfigs visited result
          else
            (case resolveAllProvidedTokens depth parentConfig allConfigs
                    (insert parentSymbol visited) of
               None \<Rightarrow> None
             | Some (parentTokens, visited') \<Rightarrow>
                 resolveParents depth rest allConfigs visited' (result ++ parentTokens)))"

text \<open>
  The transitive parents of a configuration: what its \<^verbatim>\<open>extends\<close> list reaches through
  the configuration map.
\<close>

inductive transitiveParent :: "ConfigMap \<Rightarrow> AnalyzedConfig \<Rightarrow> AnalyzedConfig \<Rightarrow> bool"
  for allConfigs :: ConfigMap and config :: AnalyzedConfig
where
  parent: "parentSymbol \<in> set (parentConfigs config)
      \<Longrightarrow> map_of allConfigs parentSymbol = Some parentConfig
      \<Longrightarrow> transitiveParent allConfigs config parentConfig"
| grandparent: "transitiveParent allConfigs config ancestor
      \<Longrightarrow> parentSymbol \<in> set (parentConfigs ancestor)
      \<Longrightarrow> map_of allConfigs parentSymbol = Some parentConfig
      \<Longrightarrow> transitiveParent allConfigs config parentConfig"

code_pred transitiveParent .

section \<open>Validating a configuration and a program\<close>

text \<open>The loop of \<^verbatim>\<open>validateConfig\<close> over the entries of \<open>classesToValidate\<close>.\<close>

fun validateConfig_loop ::
  "ValidationEngine \<Rightarrow> ProviderMap \<Rightarrow> ClassMap \<Rightarrow> ProvidedTokens \<Rightarrow> AnalyzedConfig
     \<Rightarrow> DIValidationError list \<Rightarrow> DIValidationError list" where
  "validateConfig_loop this [] allClasses providedTokens config errors = errors"
| "validateConfig_loop this ((classSymbol, provider) # rest) allClasses providedTokens config
     errors =
     (case map_of allClasses classSymbol of
        None \<Rightarrow> validateConfig_loop this rest allClasses providedTokens config errors
      | Some analyzedClass \<Rightarrow>
          validateConfig_loop this rest allClasses providedTokens config
            (errors @ validateClassDependencies this analyzedClass providedTokens provider
                        config))"

text \<open>
  \<^verbatim>\<open>validateConfig\<close> has no exception handler: when one of the two recursions exhausts
  the stack, so does \<^verbatim>\<open>validateConfig\<close>.  Both start from a fresh, empty set.
\<close>

definition validateConfig ::
  "ValidationEngine \<Rightarrow> nat \<Rightarrow> AnalyzedConfig \<Rightarrow> ConfigMap \<Rightarrow> ClassMap
     \<Rightarrow> DIValidationError list option" where
  "validateConfig this depth config allConfigs allClasses =
     (case resolveAllProvidedTokens depth config allConfigs {} of
        None \<Rightarrow> None
      | Some (providedTokens, visitedSet) \<Rightarrow>
          (case collectClassesToValidate depth config allConfigs {} of
             None \<Rightarrow> None
           | Some classesToValidate \<Rightarrow>
               Some (validateConfig_loop this classesToValidate allClasses providedTokens
                       config [])))"

text \<open>A program is the list of its source files (\<^verbatim>\<open>program.getSourceFiles()\<close>).\<close>

type_synonym Program = "SourceFile list"

fun collectFileConfigs :: "AnalyzedConfig list \<Rightarrow> ConfigMap \<Rightarrow> ConfigMap" where
  "collectFileConfigs [] configs = configs"
| "collectFileConfigs (config # rest) configs =
     (case config_symbol config of
        Some s \<Rightarrow> collectFileConfigs rest (AList.update s config configs)
      | None \<Rightarrow> collectFileConfigs rest configs)"

fun collectAllConfigs_loop :: "ValidationEngine \<Rightarrow> Program \<Rightarrow> ConfigMap \<Rightarrow> ConfigMap" where
  "collectAllConfigs_loop this [] configs = configs"
| "collectAllConfigs_loop this (file # rest) configs =
     (if isDeclarationFile file then collectAllConfigs_loop this rest configs
      else collectAllConfigs_loop this rest
             (collectFileConfigs (configAnalyzer_analyzeSourceFile this file) configs))"

definition collectAllConfigs :: "ValidationEngine \<Rightarrow> Program \<Rightarrow> ConfigMap" where
  "collectAllConfigs this program = collectAllConfigs_loop this program []"

fun collectFileClasses :: "AnalyzedClass list \<Rightarrow> ClassMap \<Rightarrow> ClassMap" where
  "collectFileClasses [] classes = classes"
| "collectFileClasses (cls # rest) classes =
     collectFileClasses rest (AList.update (class_symbol cls) cls classes)"

fun collectAllClasses_loop :: "ValidationEngine \<Rightarrow> Program \<Rightarrow> ClassMap \<Rightarrow> ClassMap" where
  "collectAllClasses_loop this [] classes = classes"
| "collectAllClasses_loop this (file # rest) classes =
     (if isDeclarationFile file then collectAllClasses_loop this rest classes
      else collectAllClasses_loop this rest
             (collectFileClasses (dependencyAnalyzer_analyzeSourceFile this file) classes))"

definition collectAllClasses :: "ValidationEngine \<Rightarrow> Program \<Rightarrow> ClassMap" where
  "collectAllClasses this program = collectAllClasses_loop this program []"

text \<open>
  Phase 3 of \<^verbatim>\<open>validate\<close>: the loop over the entries of \<open>allConfigs\<close>.  Nothing catches
  what \<^verbatim>\<open>validateConfig\<close> throws.
\<close>

fun validate_loop ::
  "ValidationEngine \<Rightarrow> nat \<Rightarrow> ConfigMap \<Rightarrow> ConfigMap \<Rightarrow> ClassMap \<Rightarrow> DIValidationError list
     \<Rightarrow> DIValidationError list option" where
  "validate_loop this depth [] allConfigs allClasses errors = Some errors"
| "validate_loop this depth ((configSymbol, config) # rest) allConfigs allClasses errors =
     (if config_type config \<noteq> Builder
      then validate_loop this depth rest allConfigs allClasses errors
      else
        (case validateConfig this depth config allConfigs allClasses of
           None \<Rightarrow> None
         | Some configErrors \<Rightarrow>
             validate_loop this depth rest allConfigs allClasses (errors @ configErrors)))"

definition validate :: "ValidationEngine \<Rightarrow> nat \<Rightarrow> Program \<Rightarrow> DIValidationError list option" where
  "validate this depth program =
     (let allConfigs = collectAllConfigs this program;
          allClasses = collectAllClasses this program
      in validate_loop this depth allConfigs allConfigs allClasses [])"

section \<open>Converting to host diagnostics\<close>

datatype DiagnosticCategory = Warning | Error | Suggestion | Message

record DiagnosticRelatedInformation =
  dri_file :: SourceFile
  dri_start :: int
  dri_length :: int
  dri_messageText :: string
  dri_category :: DiagnosticCategory
  dri_code :: nat

record Diagnostic =
  diag_file :: SourceFile
  diag_start :: int
  diag_length :: int
  diag_messageText :: string
  diag_category :: DiagnosticCategory
  diag_code :: nat
  diag_source :: "string option"
  diag_relatedInformation :: "DiagnosticRelatedInformation list option"

text \<open>The callback that \<^verbatim>\<open>convertToDiagnostics\<close> maps over the errors.\<close>

definition convertError :: "DIValidationError \<Rightarrow> Diagnostic" where
  "convertError error =
     (let diagnostic =
            \<lparr> diag_file = err_file error,
              diag_start = err_start error,
              diag_length = err_length error,
              diag_messageText = err_message error,
              diag_category = Error,
              diag_code = 90001,
              diag_source = Some ''di-validator'',
              diag_relatedInformation = None \<rparr>
      in case err_relatedInformation error of
           None \<Rightarrow> diagnostic
         | Some infos \<Rightarrow>
             if length infos > 0
             then diagnostic
                    \<lparr> diag_relatedInformation := Some
                        (map (\<lambda>info. \<lparr> dri_file = rel_file info,
                                       dri_start = rel_start info,
                                       dri_length = rel_length info,
                                       dri_messageText = rel_message info,
                                       dri_category = Message,
                                       dri_code = 90001 \<rparr>) infos) \<rparr>
             else diagnostic)"

definition convertToDiagnostics :: "DIValidationError list \<Rightarrow> Diagnostic list" where
  "convertToDiagnostics errors = map convertError errors"

section \<open>A sample program\<close>

text \<open>
  A builder in \<^verbatim>\<open>app.ts\<close> extends a partial of \<^verbatim>\<open>partials.ts\<close> and a configuration that
  could not be analyzed (symbol 102).  The texts of the files are cut down to the brackets
  and one letter for each registration and parameter.  The partial binds the token \<^verbatim>\<open>ProductRepository\<close> to
  the class \<^verbatim>\<open>ConsoleLogger\<close>, the token \<^verbatim>\<open>Config\<close> to a factory, and registers the class
  \<^verbatim>\<open>ProductService\<close>, whose constructor in \<^verbatim>\<open>services.ts\<close> asks for a
  \<^verbatim>\<open>ProductRepository\<close>, a \<^verbatim>\<open>Config\<close> and a \<^verbatim>\<open>Logger\<close>.  Nothing binds \<^verbatim>\<open>Logger\<close>.
\<close>

definition appFile :: SourceFile where
  "appFile = \<lparr> fileName = ''app.ts'', sourceText = ''[ {V} ]      x'',
       isDeclarationFile = False \<rparr>"

definition partialsFile :: SourceFile where
  "partialsFile = \<lparr> fileName = ''partials.ts'', sourceText = ''[ {R}, {C}, {P}, {L} ]'',
       isDeclarationFile = False \<rparr>"

definition servicesFile :: SourceFile where
  "servicesFile = \<lparr> fileName = ''services.ts'', sourceText = ''(r, c, l)'',
       isDeclarationFile = False \<rparr>"

definition repositoryDependency :: RequiredDependency where
  "repositoryDependency =
     \<lparr> dep_token = \<lparr> token_id = 3, displayName = ''ProductRepository'' \<rparr>,
       expectedType = Some 3, parameterIndex = 0,
       parameterNode = \<lparr> nodeSourceFile = servicesFile, nodePos = 1, nodeEnd = 2 \<rparr> \<rparr>"

definition configDependency :: RequiredDependency where
  "configDependency =
     \<lparr> dep_token = \<lparr> token_id = 5, displayName = ''Config'' \<rparr>,
       expectedType = Some 5, parameterIndex = 1,
       parameterNode = \<lparr> nodeSourceFile = servicesFile, nodePos = 3, nodeEnd = 5 \<rparr> \<rparr>"

definition loggerDependency :: RequiredDependency where
  "loggerDependency =
     \<lparr> dep_token = \<lparr> token_id = 1, displayName = ''Logger'' \<rparr>,
       expectedType = Some 1, parameterIndex = 2,
       parameterNode = \<lparr> nodeSourceFile = servicesFile, nodePos = 6, nodeEnd = 8 \<rparr> \<rparr>"

definition productServiceClass :: AnalyzedClass where
  "productServiceClass =
     \<lparr> class_name = ''ProductService'', class_symbol = 11,
       dependencies = [repositoryDependency, configDependency, loggerDependency] \<rparr>"

definition repositoryProvider :: RegisteredProvider where
  "repositoryProvider =
     \<lparr> provider_token = \<lparr> token_id = 3, displayName = ''ProductRepository'' \<rparr>,
       providerClass = Some 12, providerClassName = Some ''ConsoleLogger'',
       providerType = Some 6, registrationType = ProviderClass,
       provider_node = \<lparr> nodeSourceFile = partialsFile, nodePos = 1, nodeEnd = 5 \<rparr> \<rparr>"

definition configProvider :: RegisteredProvider where
  "configProvider =
     \<lparr> provider_token = \<lparr> token_id = 5, displayName = ''Config'' \<rparr>,
       providerClass = None, providerClassName = None,
       providerType = None, registrationType = Factory,
       provider_node = \<lparr> nodeSourceFile = partialsFile, nodePos = 6, nodeEnd = 10 \<rparr> \<rparr>"

definition productServiceProvider :: RegisteredProvider where
  "productServiceProvider =
     \<lparr> provider_token = \<lparr> token_id = 4, displayName = ''ProductService'' \<rparr>,
       providerClass = Some 11, providerClassName = Some ''ProductService'',
       providerType = Some 4, registrationType = ProviderClass,
       provider_node = \<lparr> nodeSourceFile = partialsFile, nodePos = 11, nodeEnd = 15 \<rparr> \<rparr>"

definition servicesPartial :: AnalyzedConfig where
  "servicesPartial =
     \<lparr> config_type = Partial, builderId = None, variableName = Some ''servicesPartial'',
       sourceFile = partialsFile,
       localProviders = [repositoryProvider, configProvider, productServiceProvider],
       parentConfigs = [], config_symbol = Some 101, listeners = [] \<rparr>"

definition appBuilder :: AnalyzedConfig where
  "appBuilder =
     \<lparr> config_type = Builder, builderId = Some ''app'', variableName = Some ''appConfig'',
       sourceFile = appFile, localProviders = [], parentConfigs = [101, 102],
       config_symbol = Some 100, listeners = [] \<rparr>"

definition sampleChecker :: TypeChecker where
  "sampleChecker =
     \<lparr> isTypeAssignableTo = (\<lambda>provided expected. provided = expected),
       typeToString = (\<lambda>t. if t = 3 then ''ProductRepositoryInterface''
                            else if t = 6 then ''ConsoleLogger'' else ''unknown'') \<rparr>"

text \<open>A scanner for the samples: blanks are the only trivia.\<close>

definition skipBlanks :: "string \<Rightarrow> int \<Rightarrow> int" where
  "skipBlanks fileText pos =
     pos + int (length (takeWhile (\<lambda>c. c = CHR '' '') (drop (nat pos) fileText)))"

definition sampleEngine :: ValidationEngine where
  "sampleEngine =
     \<lparr> checker = sampleChecker,
       skipTrivia = skipBlanks,
       configAnalyzer_analyzeSourceFile =
         (\<lambda>file. if fileName file = ''app.ts'' then [appBuilder]
                  else if fileName file = ''partials.ts'' then [servicesPartial] else []),
       dependencyAnalyzer_analyzeSourceFile =
         (\<lambda>file. if fileName file = ''services.ts'' then [productServiceClass] else []) \<rparr>"

definition sampleProgram :: Program where
  "sampleProgram = [appFile, partialsFile, servicesFile]"

definition sampleConfigs :: ConfigMap where
  "sampleConfigs = [(100, appBuilder), (101, servicesPartial)]"

definition sampleClasses :: ClassMap where
  "sampleClasses = [(11, productServiceClass)]"

definition sampleErrors :: "DIValidationError list" where
  "sampleErrors =
     [\<lparr> err_message = ''first'', err_file = appFile, err_start = 7, err_length = 3,
        err_relatedInformation = None \<rparr>,
      \<lparr> err_message = ''second'', err_file = partialsFile, err_start = 200, err_length = 60,
        err_relatedInformation = Some
          [\<lparr> rel_file = servicesFile, rel_start = 40, rel_length = 30,
             rel_message = ''here'' \<rparr>] \<rparr>]"

section \<open>The diagnostics of one dependency and of what is checked around it\<close>

text \<open>
  What one pass of the loop of \<^verbatim>\<open>validateClassDependencies\<close> pushes for a dependency.
\<close>

definition dependencyErrors ::
  "ValidationEngine \<Rightarrow> AnalyzedClass \<Rightarrow> ProvidedTokens \<Rightarrow> RegisteredProvider
     \<Rightarrow> AnalyzedConfig \<Rightarrow> RequiredDependency \<Rightarrow> DIValidationError list" where
  "dependencyErrors this analyzedClass providedTokens provider config dependency =
     (case providedTokens (token_id (dep_token dependency)) of
        None \<Rightarrow> [createMissingDependencyError this analyzedClass dependency provider config]
      | Some registeredProvider \<Rightarrow>
          (case checkTypeCompatibility this dependency registeredProvider analyzedClass config of
             None \<Rightarrow> []
           | Some typeError \<Rightarrow> [typeError]))"

text \<open>
  The diagnostics that \<^verbatim>\<open>validateConfig\<close> has collected when it reaches a dependency of
  a class (those of the classes before it and of the parameters before it), and those it
  collects afterwards.
\<close>

definition errorsBefore ::
  "ValidationEngine \<Rightarrow> ClassMap \<Rightarrow> ProvidedTokens \<Rightarrow> AnalyzedConfig \<Rightarrow> ProviderMap
     \<Rightarrow> AnalyzedClass \<Rightarrow> RegisteredProvider \<Rightarrow> RequiredDependency list
     \<Rightarrow> DIValidationError list" where
  "errorsBefore this allClasses providedTokens config classesBefore analyzedClass provider
     depsBefore =
     validateConfig_loop this classesBefore allClasses providedTokens config []
     @ validateClassDependencies this (analyzedClass\<lparr>dependencies := depsBefore\<rparr>)
         providedTokens provider config"

definition errorsAfter ::
  "ValidationEngine \<Rightarrow> ClassMap \<Rightarrow> ProvidedTokens \<Rightarrow> AnalyzedConfig \<Rightarrow> ProviderMap
     \<Rightarrow> AnalyzedClass \<Rightarrow> RegisteredProvider \<Rightarrow> RequiredDependency list
     \<Rightarrow> DIValidationError list" where
  "errorsAfter this allClasses providedTokens config classesAfter analyzedClass provider
     depsAfter =
     validateClassDependencies this (analyzedClass\<lparr>dependencies := depsAfter\<rparr>)
       providedTokens provider config
     @ validateConfig_loop this classesAfter allClasses providedTokens config []"

text \<open>The bindings that the sample builder resolves to.\<close>

definition sampleProvidedTokens :: ProvidedTokens where
  "sampleProvidedTokens =
     [3 \<mapsto> repositoryProvider, 5 \<mapsto> configProvider, 4 \<mapsto> productServiceProvider]"

text \<open>The two kinds of diagnostic are told apart by the head of their message.\<close>

definition startsWith :: "string \<Rightarrow> string \<Rightarrow> bool" where
  "startsWith p s = (take (length p) s = p)"

definition isMissingDependencyError :: "DIValidationError \<Rightarrow> bool" where
  "isMissingDependencyError e = startsWith ''[WireDI] Missing dependency:'' (err_message e)"

definition isTypeMismatchError :: "DIValidationError \<Rightarrow> bool" where
  "isTypeMismatchError e = startsWith ''[WireDI] Type mismatch:'' (err_message e)"

section \<open>Further sample programs\<close>

text \<open>
  A diamond: a builder extends two partials, and both extend the same base partial.
\<close>

definition loggerProvider :: RegisteredProvider where
  "loggerProvider =
     \<lparr> provider_token = \<lparr> token_id = 1, displayName = ''Logger'' \<rparr>,
       providerClass = Some 12, providerClassName = Some ''ConsoleLogger'',
       providerType = Some 6, registrationType = ProviderClass,
       provider_node = \<lparr> nodeSourceFile = partialsFile, nodePos = 16, nodeEnd = 20 \<rparr> \<rparr>"

definition diamondBase :: AnalyzedConfig where
  "diamondBase =
     \<lparr> config_type = Partial, builderId = None, variableName = Some ''basePartial'',
       sourceFile = partialsFile, localProviders = [loggerProvider], parentConfigs = [],
       config_symbol = Some 203, listeners = [] \<rparr>"

definition diamondLeft :: AnalyzedConfig where
  "diamondLeft =
     \<lparr> config_type = Partial, builderId = None, variableName = Some ''leftPartial'',
       sourceFile = partialsFile, localProviders = [], parentConfigs = [203],
       config_symbol = Some 201, listeners = [] \<rparr>"

definition diamondRight :: AnalyzedConfig where
  "diamondRight =
     \<lparr> config_type = Partial, builderId = None, variableName = Some ''rightPartial'',
       sourceFile = partialsFile, localProviders = [], parentConfigs = [203],
       config_symbol = Some 202, listeners = [] \<rparr>"

definition diamondBuilder :: AnalyzedConfig where
  "diamondBuilder =
     \<lparr> config_type = Builder, builderId = Some ''diamond'', variableName = None,
       sourceFile = appFile, localProviders = [], parentConfigs = [201, 202],
       config_symbol = Some 200, listeners = [] \<rparr>"

definition diamondConfigs :: ConfigMap where
  "diamondConfigs =
     [(200, diamondBuilder), (201, diamondLeft), (202, diamondRight), (203, diamondBase)]"

text \<open>
  A cycle: the sample program with one more file, in which a builder extends a partial
  that extends itself.
\<close>

definition cycleFile :: SourceFile where
  "cycleFile = \<lparr> fileName = ''cycle.ts'', sourceText = '''',
       isDeclarationFile = False \<rparr>"

definition cyclicPartial :: AnalyzedConfig where
  "cyclicPartial =
     \<lparr> config_type = Partial, builderId = None, variableName = Some ''cyclicPartial'',
       sourceFile = cycleFile, localProviders = [], parentConfigs = [301],
       config_symbol = Some 301, listeners = [] \<rparr>"

definition brokenBuilder :: AnalyzedConfig where
  "brokenBuilder =
     \<lparr> config_type = Builder, builderId = Some ''broken'', variableName = None,
       sourceFile = cycleFile, localProviders = [], parentConfigs = [301],
       config_symbol = Some 300, listeners = [] \<rparr>"

definition cyclicEngine :: ValidationEngine where
  "cyclicEngine =
     sampleEngine
       \<lparr> configAnalyzer_analyzeSourceFile :=
           (\<lambda>file. if fileName file = ''cycle.ts'' then [brokenBuilder, cyclicPartial]
                    else configAnalyzer_analyzeSourceFile sampleEngine file) \<rparr>"

definition cyclicProgram :: Program where
  "cyclicProgram = [appFile, partialsFile, servicesFile, cycleFile]"

definition cyclicConfigs :: ConfigMap where
  "cyclicConfigs =
     [(100, appBuilder), (101, servicesPartial), (300, brokenBuilder), (301, cyclicPartial)]"

text \<open>A builder that registers the same (event, listener) pair twice and nothing else.\<close>

definition eventsFile :: SourceFile where
  "eventsFile = \<lparr> fileName = ''events.ts'', sourceText = '''',
       isDeclarationFile = False \<rparr>"

definition listenerBuilder :: AnalyzedConfig where
  "listenerBuilder =
     \<lparr> config_type = Builder, builderId = Some ''events'', variableName = None,
       sourceFile = eventsFile, localProviders = [], parentConfigs = [],
       config_symbol = Some 400, listeners = [(7, 8), (7, 8)] \<rparr>"

definition listenerEngine :: ValidationEngine where
  "listenerEngine =
     \<lparr> checker = sampleChecker,
       skipTrivia = skipBlanks,
       configAnalyzer_analyzeSourceFile =
         (\<lambda>file. if fileName file = ''events.ts'' then [listenerBuilder] else []),
       dependencyAnalyzer_analyzeSourceFile = (\<lambda>file. []) \<rparr>"

section \<open>Changing the listeners of every configuration\<close>

text \<open>
  To state that the engine never looks at listeners: the same configuration, configuration
  map and engine, with every \<open>listeners\<close> list replaced by an arbitrary other one.
\<close>

definition relisten ::
  "(AnalyzedConfig \<Rightarrow> (TokenId \<times> TokenId) list) \<Rightarrow> AnalyzedConfig \<Rightarrow> AnalyzedConfig" where
  "relisten f config = config\<lparr>listeners := f config\<rparr>"

definition relistenAll ::
  "(AnalyzedConfig \<Rightarrow> (TokenId \<times> TokenId) list) \<Rightarrow> ConfigMap \<Rightarrow> ConfigMap" where
  "relistenAll f configs =
     map (\<lambda>(configSymbol, config). (configSymbol, relisten f config)) configs"

definition relistenEngine ::
  "(AnalyzedConfig \<Rightarrow> (TokenId \<times> TokenId) list) \<Rightarrow> ValidationEngine
     \<Rightarrow> ValidationEngine" where
  "relistenEngine f this =
     this\<lparr>configAnalyzer_analyzeSourceFile :=
            (\<lambda>file. map (relisten f) (configAnalyzer_analyzeSourceFile this file))\<rparr>"

section \<open>What a resolved mapping has to contain\<close>

text \<open>The tokens a configuration binds itself.\<close>

definition localTokens :: "AnalyzedConfig \<Rightarrow> TokenId set" where
  "localTokens config =
     (\<lambda>provider. token_id (provider_token provider)) ` set (localProviders config)"

text \<open>A provider is registered for a token in a configuration.\<close>

definition registeredFor :: "TokenId \<Rightarrow> RegisteredProvider \<Rightarrow> AnalyzedConfig \<Rightarrow> bool" where
  "registeredFor tokenId provider config =
     (provider \<in> set (localProviders config) \<and> token_id (provider_token provider) = tokenId)"

text \<open>
  A visited configuration is covered by a result when its own tokens are bound in the
  result and its known parents have been visited too.
\<close>

definition covered :: "ConfigMap \<Rightarrow> ProvidedTokens \<Rightarrow> Symbol set \<Rightarrow> Symbol \<Rightarrow> bool" where
  "covered allConfigs result visited configSymbol =
     (\<forall>config. map_of allConfigs configSymbol = Some config \<longrightarrow>
        localTokens config \<subseteq> dom result
        \<and> set (parentConfigs config) \<inter> dom (map_of allConfigs) \<subseteq> visited)"

text \<open>A builder that extends the sample partial and binds \<^verbatim>\<open>Config\<close> again, to a value.\<close>

definition configOverride :: RegisteredProvider where
  "configOverride =
     \<lparr> provider_token = \<lparr> token_id = 5, displayName = ''Config'' \<rparr>,
       providerClass = None, providerClassName = None,
       providerType = None, registrationType = Value,
       provider_node = \<lparr> nodeSourceFile = appFile, nodePos = 1, nodeEnd = 5 \<rparr> \<rparr>"

definition overridingBuilder :: AnalyzedConfig where
  "overridingBuilder =
     \<lparr> config_type = Builder, builderId = Some ''override'', variableName = None,
       sourceFile = appFile, localProviders = [configOverride], parentConfigs = [101],
       config_symbol = Some 103, listeners = [] \<rparr>"

section \<open>The diagnostics of the other builder configurations\<close>


section \<open>Properties\<close>

subsection \<open>The sample program\<close>



subsection \<open>The diagnostic adapter\<close>

text \<open>
  Claim C8.  \<^verbatim>\<open>convertToDiagnostics\<close> returns one host diagnostic per validation error, in
  the same order: the diagnostic at each position carries the file, start, length and
  message of the error at that position, the category \<open>Error\<close>, the code 90001 and the
  source \<^verbatim>\<open>di-validator\<close>, and the error's related locations (each with the category
  \<open>Message\<close> and the same code) when the error has some.  It is defined on every list, and
  the empty list gives the empty list.
\<close>

theorem convertToDiagnostics_one_to_one:
  "length (convertToDiagnostics errors) = length errors
   \<and> (\<forall>i < length errors.
         diag_file (convertToDiagnostics errors ! i) = err_file (errors ! i)
       \<and> diag_start (convertToDiagnostics errors ! i) = err_start (errors ! i)
       \<and> diag_length (convertToDiagnostics errors ! i) = err_length (errors ! i)
       \<and> diag_messageText (convertToDiagnostics errors ! i) = err_message (errors ! i)
       \<and> diag_category (convertToDiagnostics errors ! i) = Error
       \<and> diag_code (convertToDiagnostics errors ! i) = 90001
       \<and> diag_source (convertToDiagnostics errors ! i) = Some ''di-validator''
       \<and> diag_relatedInformation (convertToDiagnostics errors ! i) =
           (case err_relatedInformation (errors ! i) of
              None \<Rightarrow> None
            | Some infos \<Rightarrow>
                if infos = [] then None
                else Some (map (\<lambda>info. \<lparr> dri_file = rel_file info,
                                            dri_start = rel_start info,
                                            dri_length = rel_length info,
                                            dri_messageText = rel_message info,
                                            dri_category = Message,
                                            dri_code = 90001 \<rparr>) infos)))
   \<and> convertToDiagnostics [] = []"
  by (simp add: convertToDiagnostics_def convertError_def split: option.splits)

theorem convertToDiagnostics_one_to_one_witness:
  "length (convertToDiagnostics sampleErrors) = 2
   \<and> diag_messageText (convertToDiagnostics sampleErrors ! 1) = ''second''
   \<and> diag_file (convertToDiagnostics sampleErrors ! 1) = partialsFile
   \<and> diag_code (convertToDiagnostics sampleErrors ! 1) = 90001
   \<and> diag_source (convertToDiagnostics sampleErrors ! 1) = Some ''di-validator''
   \<and> diag_relatedInformation (convertToDiagnostics sampleErrors ! 1)
       = Some [\<lparr> dri_file = servicesFile, dri_start = 40, dri_length = 30,
                 dri_messageText = ''here'', dri_category = Message, dri_code = 90001 \<rparr>]"
proof -
  have len: "length sampleErrors = 2" and idx: "(1::nat) < length sampleErrors"
    by (simp_all add: sampleErrors_def)
  have snd: "sampleErrors ! 1 =
      \<lparr> err_message = ''second'', err_file = partialsFile, err_start = 200, err_length = 60,
        err_relatedInformation = Some
          [\<lparr> rel_file = servicesFile, rel_start = 40, rel_length = 30,
             rel_message = ''here'' \<rparr>] \<rparr>"
    by (simp add: sampleErrors_def)
  from convertToDiagnostics_one_to_one [of sampleErrors] idx
  show ?thesis
    by (simp add: len snd del: One_nat_def)
qed

subsection \<open>Checking the dependencies of a class\<close>

lemma createMissingDependencyError_dependencies:
  "createMissingDependencyError this (cls\<lparr>dependencies := ds\<rparr>) d prov cfg
     = createMissingDependencyError this cls d prov cfg"
  by (simp add: createMissingDependencyError_def)

lemma checkTypeCompatibility_dependencies:
  "checkTypeCompatibility this d rp (cls\<lparr>dependencies := ds\<rparr>) cfg
     = checkTypeCompatibility this d rp cls cfg"
  by (simp add: checkTypeCompatibility_def typeMismatchError_def split: option.splits)

lemma dependencies_loop_class:
  "validateClassDependencies_loop this (cls\<lparr>dependencies := ds'\<rparr>) pt prov cfg ds errs
     = validateClassDependencies_loop this cls pt prov cfg ds errs"
  by (induction ds arbitrary: errs)
     (simp_all add: createMissingDependencyError_dependencies
        checkTypeCompatibility_dependencies split: option.splits)

lemma dependencies_loop_errors:
  "validateClassDependencies_loop this cls pt prov cfg ds errs
     = errs @ validateClassDependencies_loop this cls pt prov cfg ds []"
proof (induction ds arbitrary: errs)
  case Nil
  show ?case by simp
next
  case (Cons d ds)
  show ?case
    by (simp split: option.splits) (metis Cons.IH append.assoc)
qed

lemma dependencies_loop_append:
  "validateClassDependencies_loop this cls pt prov cfg (xs @ ys) errs
     = validateClassDependencies_loop this cls pt prov cfg ys
         (validateClassDependencies_loop this cls pt prov cfg xs errs)"
  by (induction xs arbitrary: errs) (simp_all split: option.splits)

lemma validateClassDependencies_split:
  assumes "dependencies cls = pre @ d # post"
  shows "validateClassDependencies this cls pt prov cfg
     = validateClassDependencies this (cls\<lparr>dependencies := pre\<rparr>) pt prov cfg
       @ dependencyErrors this cls pt prov cfg d
       @ validateClassDependencies this (cls\<lparr>dependencies := post\<rparr>) pt prov cfg"
proof -
  let ?L = "validateClassDependencies_loop this cls pt prov cfg"
  have "?L (pre @ d # post) [] = ?L (d # post) (?L pre [])"
    by (rule dependencies_loop_append)
  also have "\<dots> = ?L pre [] @ ?L (d # post) []"
    by (rule dependencies_loop_errors)
  also have "?L (d # post) [] = dependencyErrors this cls pt prov cfg d @ ?L post []"
    unfolding dependencyErrors_def
    by (simp split: option.splits) (metis dependencies_loop_errors append_Cons append_Nil)
  finally show ?thesis
    using assms by (simp add: validateClassDependencies_def dependencies_loop_class)
qed

lemma classes_loop_errors:
  "validateConfig_loop this cs allClasses pt cfg errs
     = errs @ validateConfig_loop this cs allClasses pt cfg []"
proof (induction cs arbitrary: errs)
  case Nil
  show ?case by simp
next
  case (Cons c cs)
  obtain s p where c: "c = (s, p)" by (cases c)
  show ?case
  proof (cases "map_of allClasses s")
    case None
    then show ?thesis using Cons.IH [of errs] c by simp
  next
    case (Some a)
    then show ?thesis
      using Cons.IH [of "errs @ validateClassDependencies this a pt p cfg"]
        Cons.IH [of "validateClassDependencies this a pt p cfg"] c
      by simp
  qed
qed

lemma classes_loop_append:
  "validateConfig_loop this (xs @ ys) allClasses pt cfg errs
     = validateConfig_loop this ys allClasses pt cfg
         (validateConfig_loop this xs allClasses pt cfg errs)"
  by (induction xs arbitrary: errs) (auto split: option.splits)

lemma validateConfig_loop_split:
  assumes "map_of allClasses s = Some cls"
  shows "validateConfig_loop this (before @ (s, prov) # after) allClasses pt cfg []
     = validateConfig_loop this before allClasses pt cfg []
       @ validateClassDependencies this cls pt prov cfg
       @ validateConfig_loop this after allClasses pt cfg []"
proof -
  let ?L = "\<lambda>cs. validateConfig_loop this cs allClasses pt cfg"
  have "?L (before @ (s, prov) # after) [] = ?L ((s, prov) # after) (?L before [])"
    by (rule classes_loop_append)
  also have "\<dots> = ?L before [] @ ?L ((s, prov) # after) []"
    by (rule classes_loop_errors)
  also have "?L ((s, prov) # after) [] = validateClassDependencies this cls pt prov cfg @ ?L after []"
    using assms classes_loop_errors [of this after allClasses pt cfg "validateClassDependencies this cls pt prov cfg"]
    by simp
  finally show ?thesis .
qed

lemma validateConfig_dependency:
  assumes "resolveAllProvidedTokens depth config allConfigs {} = Some (providedTokens, visited)"
    and "collectClassesToValidate depth config allConfigs {}
           = Some (classesBefore @ (classSymbol, provider) # classesAfter)"
    and "map_of allClasses classSymbol = Some analyzedClass"
    and "dependencies analyzedClass = depsBefore @ dependency # depsAfter"
  shows "validateConfig this depth config allConfigs allClasses = Some
     (errorsBefore this allClasses providedTokens config classesBefore analyzedClass provider
        depsBefore
      @ dependencyErrors this analyzedClass providedTokens provider config dependency
      @ errorsAfter this allClasses providedTokens config classesAfter analyzedClass provider
          depsAfter)"
  using assms
  by (simp add: validateConfig_def validateConfig_loop_split [OF assms(3)]
        validateClassDependencies_split [OF assms(4)] errorsBefore_def errorsAfter_def)

lemma sample_resolved:
  "resolveAllProvidedTokens 5 appBuilder sampleConfigs {} = Some (sampleProvidedTokens, {101})"
  by (simp add: eval_nat_numeral sampleConfigs_def appBuilder_def servicesPartial_def
        sampleProvidedTokens_def repositoryProvider_def configProvider_def
        productServiceProvider_def)

lemma sample_collected:
  "collectClassesToValidate 5 appBuilder sampleConfigs {}
     = Some ([(12, repositoryProvider)] @ (11, productServiceProvider) # [])"
  by code_simp

lemma sample_class: "map_of sampleClasses 11 = Some productServiceClass"
  by (simp add: sampleClasses_def)

lemma createMissingDependencyError_kind:
  "isMissingDependencyError (createMissingDependencyError this cls d prov cfg)"
  "\<not> isTypeMismatchError (createMissingDependencyError this cls d prov cfg)"
  by (simp_all add: isMissingDependencyError_def isTypeMismatchError_def startsWith_def
        createMissingDependencyError_def Let_def)

lemma typeMismatchError_kind:
  "isTypeMismatchError (typeMismatchError this d rp cls ety pty)"
  "\<not> isMissingDependencyError (typeMismatchError this d rp cls ety pty)"
  by (simp_all add: isMissingDependencyError_def isTypeMismatchError_def startsWith_def
        typeMismatchError_def Let_def)

lemma checkTypeCompatibility_Some:
  assumes "checkTypeCompatibility this d rp cls cfg = Some e"
  shows "\<exists>ety pty. e = typeMismatchError this d rp cls ety pty"
  using assms
  by (auto simp add: checkTypeCompatibility_def split: option.splits if_splits)

lemma checkTypeCompatibility_kind:
  assumes "checkTypeCompatibility this d rp cls cfg = Some e"
  shows "isTypeMismatchError e" "\<not> isMissingDependencyError e"
  using checkTypeCompatibility_Some [OF assms] typeMismatchError_kind by auto

lemma checkTypeCompatibility_exempt:
  assumes "registrationType rp = Factory \<or> registrationType rp = Value"
  shows "checkTypeCompatibility this d rp cls cfg = None"
  using assms by (auto simp add: checkTypeCompatibility_def split: option.splits)

lemma sample_dependencies:
  "dependencies productServiceClass = [] @ repositoryDependency # [configDependency, loggerDependency]"
  "dependencies productServiceClass = [repositoryDependency] @ configDependency # [loggerDependency]"
  "dependencies productServiceClass = [repositoryDependency, configDependency] @ loggerDependency # []"
  by (simp_all add: productServiceClass_def)

lemma sample_bindings:
  "sampleProvidedTokens (token_id (dep_token repositoryDependency)) = Some repositoryProvider"
  "sampleProvidedTokens (token_id (dep_token configDependency)) = Some configProvider"
  "sampleProvidedTokens (token_id (dep_token loggerDependency)) = None"
  by (simp_all add: sampleProvidedTokens_def repositoryDependency_def configDependency_def
        loggerDependency_def)


text \<open>
  Claim C3.  When the token of a dependency resolves to a binding registered as a factory
  or as a value, the dependency adds nothing to the diagnostics of the configuration,
  whatever types the binding and the dependency carry: in particular no type-mismatch
  error.
\<close>

theorem factory_and_value_never_type_mismatch:
  assumes "resolveAllProvidedTokens depth config allConfigs {} = Some (providedTokens, visited)"
    and "collectClassesToValidate depth config allConfigs {}
           = Some (classesBefore @ (classSymbol, provider) # classesAfter)"
    and "map_of allClasses classSymbol = Some analyzedClass"
    and "dependencies analyzedClass = depsBefore @ dependency # depsAfter"
    and "providedTokens (token_id (dep_token dependency)) = Some registeredProvider"
    and "registrationType registeredProvider = Factory
         \<or> registrationType registeredProvider = Value"
  shows "validateConfig this depth config allConfigs allClasses = Some
        (errorsBefore this allClasses providedTokens config classesBefore analyzedClass
           provider depsBefore
         @ errorsAfter this allClasses providedTokens config classesAfter analyzedClass
             provider depsAfter)"
  using validateConfig_dependency [OF assms(1-4), of this] assms(5)
    checkTypeCompatibility_exempt [OF assms(6)]
  by (simp add: dependencyErrors_def)

theorem factory_and_value_never_type_mismatch_witness:
  "validateConfig sampleEngine 5 appBuilder sampleConfigs sampleClasses = Some
     (errorsBefore sampleEngine sampleClasses sampleProvidedTokens appBuilder
        [(12, repositoryProvider)] productServiceClass productServiceProvider
        [repositoryDependency]
      @ errorsAfter sampleEngine sampleClasses sampleProvidedTokens appBuilder []
          productServiceClass productServiceProvider [loggerDependency])"
proof -
  have "registrationType configProvider = Factory \<or> registrationType configProvider = Value"
    by (simp add: configProvider_def)
  from factory_and_value_never_type_mismatch
         [OF sample_resolved sample_collected sample_class sample_dependencies(2)
             sample_bindings(2) this]
  show ?thesis .
qed

text \<open>
  Claim C9.  While a builder configuration is validated, each dependency of each
  validated class adds at most one diagnostic: exactly the missing-dependency error when
  its token is absent from the resolved bindings, and otherwise at most one error, which
  is then a type-mismatch error and not a missing-dependency error.
\<close>

theorem dependency_yields_at_most_one_diagnostic:
  assumes "resolveAllProvidedTokens depth config allConfigs {} = Some (providedTokens, visited)"
    and "collectClassesToValidate depth config allConfigs {}
           = Some (classesBefore @ (classSymbol, provider) # classesAfter)"
    and "map_of allClasses classSymbol = Some analyzedClass"
    and "dependencies analyzedClass = depsBefore @ dependency # depsAfter"
  shows "\<exists>errors.
      validateConfig this depth config allConfigs allClasses = Some
        (errorsBefore this allClasses providedTokens config classesBefore analyzedClass
           provider depsBefore
         @ errors
         @ errorsAfter this allClasses providedTokens config classesAfter analyzedClass
             provider depsAfter)
    \<and> length errors \<le> 1
    \<and> (providedTokens (token_id (dep_token dependency)) = None \<longrightarrow>
         errors = [createMissingDependencyError this analyzedClass dependency provider config]
         \<and> (\<forall>e \<in> set errors. isMissingDependencyError e \<and> \<not> isTypeMismatchError e))
    \<and> (providedTokens (token_id (dep_token dependency)) \<noteq> None \<longrightarrow>
         (\<forall>e \<in> set errors. isTypeMismatchError e \<and> \<not> isMissingDependencyError e))"
proof -
  let ?errors = "dependencyErrors this analyzedClass providedTokens provider config dependency"
  have one: "length ?errors \<le> 1"
    by (simp add: dependencyErrors_def split: option.splits)
  have absent: "providedTokens (token_id (dep_token dependency)) = None \<longrightarrow>
         ?errors = [createMissingDependencyError this analyzedClass dependency provider config]
         \<and> (\<forall>e \<in> set ?errors. isMissingDependencyError e \<and> \<not> isTypeMismatchError e)"
    by (simp add: dependencyErrors_def createMissingDependencyError_kind)
  have present: "providedTokens (token_id (dep_token dependency)) \<noteq> None \<longrightarrow>
         (\<forall>e \<in> set ?errors. isTypeMismatchError e \<and> \<not> isMissingDependencyError e)"
    by (auto simp add: dependencyErrors_def checkTypeCompatibility_kind split: option.splits)
  from validateConfig_dependency [OF assms, of this] one absent present
  show ?thesis
    by (intro exI [of _ ?errors] conjI)
qed

theorem dependency_yields_at_most_one_diagnostic_witness:
  "\<exists>errors.
      validateConfig sampleEngine 5 appBuilder sampleConfigs sampleClasses = Some
        (errorsBefore sampleEngine sampleClasses sampleProvidedTokens appBuilder
           [(12, repositoryProvider)] productServiceClass productServiceProvider
           [repositoryDependency, configDependency]
         @ errors
         @ errorsAfter sampleEngine sampleClasses sampleProvidedTokens appBuilder []
             productServiceClass productServiceProvider [])
    \<and> errors = [createMissingDependencyError sampleEngine productServiceClass
        loggerDependency productServiceProvider appBuilder]"
  using dependency_yields_at_most_one_diagnostic
          [OF sample_resolved sample_collected sample_class sample_dependencies(3),
           of sampleEngine]
        sample_bindings(3)
  by auto

subsection \<open>Parents that the configuration map does not know\<close>

lemma collectParentClasses_dangling:
  assumes "map_of allConfigs p = None"
  shows "collectParentClasses depth (pre @ p # post) allConfigs vs classes
       = collectParentClasses depth (pre @ post) allConfigs vs classes"
  using assms by (induction pre arbitrary: classes) (simp_all split: option.splits)

lemma resolveParents_dangling:
  assumes "map_of allConfigs p = None"
  shows "resolveParents depth (pre @ p # post) allConfigs visited result
       = resolveParents depth (pre @ post) allConfigs visited result"
  using assms
  by (induction pre arbitrary: visited result) (simp_all split: option.splits prod.splits)

lemma collectClassesToValidate_dangling:
  assumes "map_of allConfigs p = None" and "parentConfigs config = pre @ p # post"
  shows "collectClassesToValidate depth config allConfigs vs
       = collectClassesToValidate depth (config\<lparr>parentConfigs := pre @ post\<rparr>) allConfigs vs"
  using assms by (cases depth) (simp_all add: collectParentClasses_dangling)

lemma resolveAllProvidedTokens_dangling:
  assumes "map_of allConfigs p = None" and "parentConfigs config = pre @ p # post"
  shows "resolveAllProvidedTokens depth config allConfigs visited
       = resolveAllProvidedTokens depth (config\<lparr>parentConfigs := pre @ post\<rparr>) allConfigs visited"
  using assms
  by (cases depth) (simp_all add: resolveParents_dangling split: option.splits prod.splits)

lemma createMissingDependencyError_parentConfigs:
  "createMissingDependencyError this cls d prov (cfg\<lparr>parentConfigs := ps\<rparr>)
     = createMissingDependencyError this cls d prov cfg"
  by (simp add: createMissingDependencyError_def)

lemma checkTypeCompatibility_config:
  "checkTypeCompatibility this d rp cls cfg' = checkTypeCompatibility this d rp cls cfg"
  by (simp add: checkTypeCompatibility_def)

lemma dependencies_loop_parentConfigs:
  "validateClassDependencies_loop this cls pt prov (cfg\<lparr>parentConfigs := ps\<rparr>) ds errs
     = validateClassDependencies_loop this cls pt prov cfg ds errs"
  by (induction ds arbitrary: errs)
     (simp_all add: createMissingDependencyError_parentConfigs
        checkTypeCompatibility_config [of this _ _ cls "cfg\<lparr>parentConfigs := ps\<rparr>" cfg]
        split: option.splits)

lemma classes_loop_parentConfigs:
  "validateConfig_loop this cs allClasses pt (cfg\<lparr>parentConfigs := ps\<rparr>) errs
     = validateConfig_loop this cs allClasses pt cfg errs"
  by (induction cs arbitrary: errs)
     (auto simp add: validateClassDependencies_def dependencies_loop_parentConfigs
        split: option.splits)

text \<open>
  Claim C10.  When a symbol in \<open>parentConfigs\<close> has no entry in the configuration map,
  class collection passes over it: the collected classes are those of the configuration
  without that parent, and so are the diagnostics of the configuration, so that none is
  emitted on account of the dangling reference.
\<close>

theorem dangling_parent_is_skipped:
  assumes "map_of allConfigs parentSymbol = None"
    and "parentConfigs config = parentsBefore @ parentSymbol # parentsAfter"
  shows "collectClassesToValidate depth config allConfigs visitedSet
           = collectClassesToValidate depth
               (config\<lparr>parentConfigs := parentsBefore @ parentsAfter\<rparr>) allConfigs visitedSet
       \<and> validateConfig this depth config allConfigs allClasses
           = validateConfig this depth
               (config\<lparr>parentConfigs := parentsBefore @ parentsAfter\<rparr>) allConfigs allClasses"
proof -
  let ?config' = "config\<lparr>parentConfigs := parentsBefore @ parentsAfter\<rparr>"
  have collected: "collectClassesToValidate depth config allConfigs vs
      = collectClassesToValidate depth ?config' allConfigs vs" for vs
    by (rule collectClassesToValidate_dangling [OF assms])
  have resolved: "resolveAllProvidedTokens depth config allConfigs {}
      = resolveAllProvidedTokens depth ?config' allConfigs {}"
    by (rule resolveAllProvidedTokens_dangling [OF assms])
  have "validateConfig this depth config allConfigs allClasses
      = validateConfig this depth ?config' allConfigs allClasses"
    unfolding validateConfig_def resolved collected [of "{}"] classes_loop_parentConfigs ..
  with collected [of visitedSet] show ?thesis by simp
qed

theorem dangling_parent_is_skipped_witness:
  "collectClassesToValidate 5 appBuilder sampleConfigs {}
     = collectClassesToValidate 5 (appBuilder\<lparr>parentConfigs := [101]\<rparr>) sampleConfigs {}
   \<and> validateConfig sampleEngine 5 appBuilder sampleConfigs sampleClasses
     = validateConfig sampleEngine 5 (appBuilder\<lparr>parentConfigs := [101]\<rparr>) sampleConfigs
         sampleClasses"
proof -
  have dangling: "map_of sampleConfigs 102 = None"
    by (simp add: sampleConfigs_def)
  have parents: "parentConfigs appBuilder = [101] @ 102 # []"
    by (simp add: appBuilder_def)
  from dangling_parent_is_skipped [OF dangling parents, of 5 "{}" sampleEngine sampleClasses]
  show ?thesis by simp
qed

subsection \<open>Where a missing dependency is reported\<close>

lemma sample_validateConfig:
  "validateConfig sampleEngine 5 appBuilder sampleConfigs sampleClasses = Some
     [typeMismatchError sampleEngine repositoryDependency repositoryProvider
        productServiceClass 3 6,
      createMissingDependencyError sampleEngine productServiceClass
        loggerDependency productServiceProvider appBuilder]"
  by code_simp

text \<open>
  Claim C1, on the sample program.  The class \<^verbatim>\<open>ProductService\<close> is registered in
  \<^verbatim>\<open>partials.ts\<close> and its \<^verbatim>\<open>Logger\<close> parameter is unbound.  \<^verbatim>\<open>validate\<close> reports the one
  missing-dependency error for it in the file of the builder, \<^verbatim>\<open>app.ts\<close>, and not in the
  file of the registration: \<^verbatim>\<open>createMissingDependencyError\<close> takes the file from
  \<^verbatim>\<open>config.sourceFile\<close>, where \<^verbatim>\<open>checkTypeCompatibility\<close> takes it from the node of the
  registration.  Start and length are computed in the text of \<^verbatim>\<open>app.ts\<close> as well, from a
  position that belongs to \<^verbatim>\<open>partials.ts\<close>, so the span is not that of the registration
  either (13 and 2 where the registration has 12 and 3).
\<close>

theorem missing_dependency_reported_in_builder_file:
  "validate sampleEngine 5 sampleProgram = Some
     [typeMismatchError sampleEngine repositoryDependency repositoryProvider
        productServiceClass 3 6,
      createMissingDependencyError sampleEngine productServiceClass
        loggerDependency productServiceProvider appBuilder]
   \<and> err_file (createMissingDependencyError sampleEngine productServiceClass
        loggerDependency productServiceProvider appBuilder) = appFile
   \<and> getSourceFile (provider_node productServiceProvider) = partialsFile
   \<and> appFile \<noteq> partialsFile
   \<and> err_start (createMissingDependencyError sampleEngine productServiceClass
        loggerDependency productServiceProvider appBuilder)
       = getStart sampleEngine (provider_node productServiceProvider) (Some appFile)
   \<and> err_length (createMissingDependencyError sampleEngine productServiceClass
        loggerDependency productServiceProvider appBuilder)
       = getWidth sampleEngine (provider_node productServiceProvider) (Some appFile)
   \<and> getStart sampleEngine (provider_node productServiceProvider) (Some appFile) = 13
   \<and> getWidth sampleEngine (provider_node productServiceProvider) (Some appFile) = 2
   \<and> getStart sampleEngine (provider_node productServiceProvider) None = 12
   \<and> getWidth sampleEngine (provider_node productServiceProvider) None = 3"
  by code_simp

subsection \<open>Shared ancestors\<close>

text \<open>
  The recorded calls fail exactly when \<^verbatim>\<open>collectClassesToValidate\<close> does, so they are
  the calls of the function itself.
\<close>

lemma collect_calls_same_failure:
  "(collectClassesToValidate_calls depth s config allConfigs vs = None)
     = (collectClassesToValidate depth config allConfigs vs = None)"
  "(collectParentClasses_calls depth ps allConfigs vs calls = None)
     = (collectParentClasses depth ps allConfigs vs classes = None)"
proof (induction depth s config allConfigs vs and depth ps allConfigs vs calls
       arbitrary: and classes
       rule: collectClassesToValidate_calls_collectParentClasses_calls.induct)
  case (1 configSymbol config allConfigs visitedSet)
  show ?case by simp
next
  case (2 depth configSymbol config allConfigs visitedSet)
  then show ?case by simp
next
  case (3 depth allConfigs visitedSet calls)
  show ?case by simp
next
  case (4 depth parentSymbol rest allConfigs visitedSet calls)
  show ?case
  proof (cases "map_of allConfigs parentSymbol")
    case None
    then show ?thesis using 4(1) by simp
  next
    case (Some parentConfig)
    show ?thesis
    proof (cases "collectClassesToValidate_calls depth parentSymbol parentConfig allConfigs
                    visitedSet")
      case None
      then show ?thesis using Some 4(2) [OF Some] by simp
    next
      case calls: (Some parentCalls)
      then obtain parentClasses
        where "collectClassesToValidate depth parentConfig allConfigs visitedSet
                 = Some parentClasses"
        using 4(2) [OF Some] by auto
      then show ?thesis using Some calls 4(3) [OF Some calls] by simp
    qed
  qed
qed

text \<open>
  Claim C5, on the diamond.  \<^verbatim>\<open>collectClassesToValidate\<close> returns, but it is entered
  twice on the shared base partial (symbol 203), once through each of the two partials
  that extend it: it hands \<open>visitedSet\<close> on without ever consulting it or adding to it.
\<close>

theorem diamond_ancestor_collected_twice:
  "collectClassesToValidate_calls 5 200 diamondBuilder diamondConfigs {}
     = Some [200, 201, 203, 202, 203]
   \<and> collectClassesToValidate 5 diamondBuilder diamondConfigs {} = Some [(12, loggerProvider)]"
  by code_simp

subsection \<open>A configuration whose validation fails\<close>

text \<open>
  On a cyclic \<^verbatim>\<open>extends\<close> graph \<^verbatim>\<open>collectClassesToValidate\<close> exhausts any stack.
\<close>

lemma cyclicPartial_never_collected:
  "collectClassesToValidate depth cyclicPartial cyclicConfigs vs = None"
proof (induction depth)
  case 0
  show ?case by simp
next
  case (Suc depth)
  have "map_of cyclicConfigs 301 = Some cyclicPartial"
    by (simp add: cyclicConfigs_def)
  moreover have "parentConfigs cyclicPartial = [301]"
    by (simp add: cyclicPartial_def)
  ultimately show ?case using Suc by simp
qed

lemma brokenBuilder_never_validated:
  "validateConfig this depth brokenBuilder cyclicConfigs allClasses = None"
proof -
  have "map_of cyclicConfigs 301 = Some cyclicPartial"
    by (simp add: cyclicConfigs_def)
  moreover have "parentConfigs brokenBuilder = [301]"
    by (simp add: brokenBuilder_def)
  ultimately have "collectClassesToValidate depth brokenBuilder cyclicConfigs {} = None"
    using cyclicPartial_never_collected by (cases depth) simp_all
  then show ?thesis
    by (simp add: validateConfig_def split: option.splits)
qed

lemma cyclicConfigs_collected: "collectAllConfigs cyclicEngine cyclicProgram = cyclicConfigs"
  by code_simp

lemma cyclicClasses_collected: "collectAllClasses cyclicEngine cyclicProgram = sampleClasses"
  by code_simp

lemma validate_loop_result:
  "validate_loop this depth entries allConfigs allClasses errors =
     (if \<exists>(configSymbol, config) \<in> set entries.
           config_type config = Builder
           \<and> validateConfig this depth config allConfigs allClasses = None
      then None
      else Some (errors @ concat (map (\<lambda>(configSymbol, config).
                    the (validateConfig this depth config allConfigs allClasses))
                  (filter (\<lambda>(configSymbol, config). config_type config = Builder) entries))))"
proof (induction entries arbitrary: errors)
  case Nil
  show ?case by simp
next
  case (Cons entry entries)
  obtain s c where entry: "entry = (s, c)" by (cases entry)
  show ?case
  proof (cases "config_type c = Builder")
    case False
    then show ?thesis using Cons.IH [of errors] entry by simp
  next
    case True
    show ?thesis
    proof (cases "validateConfig this depth c allConfigs allClasses")
      case None
      then show ?thesis using True entry by auto
    next
      case (Some configErrors)
      then show ?thesis using True entry Cons.IH [of "errors @ configErrors"] by simp
    qed
  qed
qed

text \<open>
  Claim C6, as the code has it.  \<^verbatim>\<open>validate\<close> does not catch what \<^verbatim>\<open>validateConfig\<close>
  throws: if validating one builder configuration fails, \<^verbatim>\<open>validate\<close> fails as a whole and
  returns no diagnostics at all; only when every builder configuration validates does it
  return their diagnostics, concatenated in the order of the configuration map.
\<close>

theorem validate_all_or_nothing:
  "validate this depth program =
     (if \<exists>(configSymbol, config) \<in> set (collectAllConfigs this program).
           config_type config = Builder
           \<and> validateConfig this depth config (collectAllConfigs this program)
                 (collectAllClasses this program) = None
      then None
      else Some (concat (map (\<lambda>(configSymbol, config).
                    the (validateConfig this depth config (collectAllConfigs this program)
                           (collectAllClasses this program)))
                  (filter (\<lambda>(configSymbol, config). config_type config = Builder)
                     (collectAllConfigs this program)))))"
  by (simp add: validate_def validate_loop_result Let_def)

theorem validate_all_or_nothing_witness:
  "validate cyclicEngine 100 cyclicProgram = None"
proof -
  have "(300, brokenBuilder) \<in> set (collectAllConfigs cyclicEngine cyclicProgram)"
    by (simp add: cyclicConfigs_collected cyclicConfigs_def)
  moreover have "config_type brokenBuilder = Builder"
    by (simp add: brokenBuilder_def)
  moreover have "validateConfig cyclicEngine 100 brokenBuilder
      (collectAllConfigs cyclicEngine cyclicProgram)
      (collectAllClasses cyclicEngine cyclicProgram) = None"
    by (simp add: cyclicConfigs_collected brokenBuilder_never_validated)
  ultimately have "\<exists>(configSymbol, config) \<in> set (collectAllConfigs cyclicEngine cyclicProgram).
           config_type config = Builder
           \<and> validateConfig cyclicEngine 100 config (collectAllConfigs cyclicEngine cyclicProgram)
                 (collectAllClasses cyclicEngine cyclicProgram) = None"
    by blast
  with validate_all_or_nothing [of cyclicEngine 100 cyclicProgram] show ?thesis
    by simp
qed

text \<open>
  Claim C6 as stated fails on the program with the cyclic partial: validating the builder
  \<^verbatim>\<open>broken\<close> fails, validating the builder \<^verbatim>\<open>app\<close> yields two diagnostics, and
  \<^verbatim>\<open>validate\<close> returns none of them.
\<close>

theorem other_configurations_lost_counterexample:
  "validateConfig cyclicEngine 100 brokenBuilder cyclicConfigs sampleClasses = None
   \<and> validateConfig cyclicEngine 100 appBuilder cyclicConfigs sampleClasses = Some
       [typeMismatchError cyclicEngine repositoryDependency repositoryProvider
          productServiceClass 3 6,
        createMissingDependencyError cyclicEngine productServiceClass
        loggerDependency productServiceProvider appBuilder]
   \<and> collectAllConfigs cyclicEngine cyclicProgram = cyclicConfigs
   \<and> collectAllClasses cyclicEngine cyclicProgram = sampleClasses
   \<and> validate cyclicEngine 100 cyclicProgram = None"
  by code_simp

subsection \<open>Listeners\<close>

lemma relisten_fields [simp]:
  "config_type (relisten f c) = config_type c"
  "builderId (relisten f c) = builderId c"
  "variableName (relisten f c) = variableName c"
  "sourceFile (relisten f c) = sourceFile c"
  "localProviders (relisten f c) = localProviders c"
  "parentConfigs (relisten f c) = parentConfigs c"
  "config_symbol (relisten f c) = config_symbol c"
  by (simp_all add: relisten_def)

lemma relistenEngine_fields [simp]:
  "checker (relistenEngine f this) = checker this"
  "skipTrivia (relistenEngine f this) = skipTrivia this"
  "dependencyAnalyzer_analyzeSourceFile (relistenEngine f this)
     = dependencyAnalyzer_analyzeSourceFile this"
  "configAnalyzer_analyzeSourceFile (relistenEngine f this) file
     = map (relisten f) (configAnalyzer_analyzeSourceFile this file)"
  by (simp_all add: relistenEngine_def)

lemma relistenAll_update:
  "AList.update s (relisten f c) (relistenAll f configs)
     = relistenAll f (AList.update s c configs)"
  by (induction configs) (auto simp add: relistenAll_def)

lemma relistenAll_map_of:
  "map_of (relistenAll f configs) s = map_option (relisten f) (map_of configs s)"
  by (induction configs) (auto simp add: relistenAll_def)

lemma collectFileConfigs_relisten:
  "collectFileConfigs (map (relisten f) cs) (relistenAll f configs)
     = relistenAll f (collectFileConfigs cs configs)"
  by (induction cs arbitrary: configs) (simp_all add: relistenAll_update split: option.splits)

lemma collectAllConfigs_loop_relisten:
  "collectAllConfigs_loop (relistenEngine f this) program (relistenAll f configs)
     = relistenAll f (collectAllConfigs_loop this program configs)"
  by (induction program arbitrary: configs) (simp_all add: collectFileConfigs_relisten)

lemma collectAllConfigs_relisten:
  "collectAllConfigs (relistenEngine f this) program
     = relistenAll f (collectAllConfigs this program)"
  using collectAllConfigs_loop_relisten [of f this program "[]"]
  by (simp add: collectAllConfigs_def relistenAll_def)

lemma collectAllClasses_loop_relisten:
  "collectAllClasses_loop (relistenEngine f this) program classes
     = collectAllClasses_loop this program classes"
  by (induction program arbitrary: classes) simp_all

lemma collectAllClasses_relisten:
  "collectAllClasses (relistenEngine f this) program = collectAllClasses this program"
  by (simp add: collectAllClasses_def collectAllClasses_loop_relisten)

lemma collect_relisten:
  "collectClassesToValidate depth (relisten f config) (relistenAll f allConfigs) vs
     = collectClassesToValidate depth config allConfigs vs"
  "collectParentClasses depth ps (relistenAll f allConfigs) vs classes
     = collectParentClasses depth ps allConfigs vs classes"
proof (induction depth config allConfigs vs and depth ps allConfigs vs classes
       rule: collectClassesToValidate_collectParentClasses.induct)
  case (1 config allConfigs visitedSet)
  show ?case by simp
next
  case (2 depth config allConfigs visitedSet)
  then show ?case by simp
next
  case (3 depth allConfigs visitedSet classes)
  show ?case by simp
next
  case (4 depth parentSymbol rest allConfigs visitedSet classes)
  show ?case
  proof (cases "map_of allConfigs parentSymbol")
    case None
    then show ?thesis using 4(1) by (simp add: relistenAll_map_of)
  next
    case (Some parentConfig)
    show ?thesis
    proof (cases "collectClassesToValidate depth parentConfig allConfigs visitedSet")
      case None
      then show ?thesis using Some 4(2) [OF Some] by (simp add: relistenAll_map_of)
    next
      case parent: (Some parentClasses)
      then show ?thesis
        using Some 4(2) [OF Some] 4(3) [OF Some parent] by (simp add: relistenAll_map_of)
    qed
  qed
qed

lemma resolve_relisten:
  "resolveAllProvidedTokens depth (relisten f config) (relistenAll f allConfigs) visited
     = resolveAllProvidedTokens depth config allConfigs visited"
  "resolveParents depth ps (relistenAll f allConfigs) visited result
     = resolveParents depth ps allConfigs visited result"
proof (induction depth config allConfigs visited and depth ps allConfigs visited result
       rule: resolveAllProvidedTokens_resolveParents.induct)
  case (1 config allConfigs visited)
  show ?case by simp
next
  case (2 depth config allConfigs visited)
  then show ?case by (simp split: option.splits prod.splits)
next
  case (3 depth allConfigs visited result)
  show ?case by simp
next
  case (4 depth parentSymbol rest allConfigs visited result)
  show ?case
  proof (cases "map_of allConfigs parentSymbol")
    case None
    then show ?thesis using 4(1) by (simp add: relistenAll_map_of)
  next
    case (Some parentConfig)
    show ?thesis
    proof (cases "parentSymbol \<in> visited")
      case True
      then show ?thesis using Some 4(2) [OF Some] by (simp add: relistenAll_map_of)
    next
      case False
      show ?thesis
      proof (cases "resolveAllProvidedTokens depth parentConfig allConfigs
                      (insert parentSymbol visited)")
        case None
        then show ?thesis
          using Some False 4(3) [OF Some False] by (simp add: relistenAll_map_of)
      next
        case parent: (Some resolved)
        obtain parentTokens visited' where resolved: "resolved = (parentTokens, visited')"
          by (cases resolved)
        show ?thesis
          using Some False parent resolved 4(3) [OF Some False]
            4(4) [OF Some False parent [unfolded resolved] refl]
          by (simp add: relistenAll_map_of)
      qed
    qed
  qed
qed

lemma createMissingDependencyError_relisten:
  "createMissingDependencyError (relistenEngine f this) cls d prov (relisten f cfg)
     = createMissingDependencyError this cls d prov cfg"
  by (simp add: createMissingDependencyError_def getStart_def getWidth_def)

lemma typeMismatchError_relisten:
  "typeMismatchError (relistenEngine f this) d rp cls expected provided
     = typeMismatchError this d rp cls expected provided"
  by (simp add: typeMismatchError_def getStart_def getWidth_def)

lemma checkTypeCompatibility_relisten:
  "checkTypeCompatibility (relistenEngine f this) d rp cls (relisten f cfg)
     = checkTypeCompatibility this d rp cls cfg"
  by (simp add: checkTypeCompatibility_def typeMismatchError_relisten split: option.splits)

lemma dependencies_loop_relisten:
  "validateClassDependencies_loop (relistenEngine f this) cls pt prov (relisten f cfg) ds errs
     = validateClassDependencies_loop this cls pt prov cfg ds errs"
  by (induction ds arbitrary: errs)
     (simp_all add: createMissingDependencyError_relisten checkTypeCompatibility_relisten
        split: option.splits)

lemma classes_loop_relisten:
  "validateConfig_loop (relistenEngine f this) cs allClasses pt (relisten f cfg) errs
     = validateConfig_loop this cs allClasses pt cfg errs"
  by (induction cs arbitrary: errs)
     (auto simp add: validateClassDependencies_def dependencies_loop_relisten
        split: option.splits)

lemma validateConfig_relisten:
  "validateConfig (relistenEngine f this) depth (relisten f config) (relistenAll f allConfigs)
     allClasses
     = validateConfig this depth config allConfigs allClasses"
  unfolding validateConfig_def resolve_relisten(1) collect_relisten(1) classes_loop_relisten ..

lemma validate_loop_relisten:
  "validate_loop (relistenEngine f this) depth (relistenAll f entries)
     (relistenAll f allConfigs) allClasses errors
     = validate_loop this depth entries allConfigs allClasses errors"
proof (induction entries arbitrary: errors)
  case Nil
  show ?case by (simp add: relistenAll_def)
next
  case (Cons entry entries)
  obtain s c where entry: "entry = (s, c)" by (cases entry)
  have unfold: "relistenAll f ((s, c) # entries) = (s, relisten f c) # relistenAll f entries"
    by (simp add: relistenAll_def)
  show ?case
    by (simp add: entry unfold validateConfig_relisten Cons.IH split: option.splits)
qed

lemma listenerBuilder_validated: "validate listenerEngine 5 [eventsFile] = Some []"
  by code_simp

text \<open>
  Claim C7, as the code has it.  \<^verbatim>\<open>validate\<close> emits no duplicate-listener error: it never
  reads the listeners of any configuration, so its result is the same whatever the
  listeners lists contain, a pair registered twice included.
\<close>

theorem listeners_never_validated:
  "validate (relistenEngine f this) depth program = validate this depth program"
  by (simp add: validate_def collectAllConfigs_relisten collectAllClasses_relisten
        validate_loop_relisten Let_def)

theorem listeners_never_validated_witness:
  "validate (relistenEngine (\<lambda>config. [(7, 8)]) listenerEngine) 5 [eventsFile] = Some []"
  using listeners_never_validated [of "\<lambda>config. [(7, 8)]" listenerEngine 5 "[eventsFile]"]
  by (simp add: listenerBuilder_validated)

text \<open>
  Claim C7 as stated fails on a builder whose only content is the same pair registered
  twice: \<^verbatim>\<open>validate\<close> returns no error where the claim expects exactly one.
\<close>

theorem duplicate_listener_counterexample:
  "listeners listenerBuilder = [(7, 8), (7, 8)]
   \<and> collectAllConfigs listenerEngine [eventsFile] = [(400, listenerBuilder)]
   \<and> validate listenerEngine 5 [eventsFile] = Some []"
  by code_simp

subsection \<open>Resolving the provided tokens\<close>

lemma overlay_other:
  "t \<notin> (\<lambda>p. token_id (provider_token p)) ` set ps \<Longrightarrow> overlayLocalProviders ps m t = m t"
  by (induction ps arbitrary: m) auto

lemma overlay_dom:
  "dom (overlayLocalProviders ps m) = dom m \<union> (\<lambda>p. token_id (provider_token p)) ` set ps"
  by (induction ps arbitrary: m) auto

lemma overlay_own:
  "t \<in> (\<lambda>p. token_id (provider_token p)) ` set ps
     \<Longrightarrow> overlayLocalProviders ps m t = overlayLocalProviders ps Map.empty t"
proof (induction ps arbitrary: m)
  case Nil
  then show ?case by simp
next
  case (Cons p ps)
  show ?case
  proof (cases "t \<in> (\<lambda>p. token_id (provider_token p)) ` set ps")
    case True
    have "overlayLocalProviders (p # ps) m t
        = overlayLocalProviders ps (m(token_id (provider_token p) \<mapsto> p)) t"
      by simp
    also have "\<dots> = overlayLocalProviders ps Map.empty t"
      by (rule Cons.IH [OF True])
    also have "\<dots> = overlayLocalProviders ps (Map.empty(token_id (provider_token p) \<mapsto> p)) t"
      by (rule Cons.IH [OF True, symmetric])
    also have "\<dots> = overlayLocalProviders (p # ps) Map.empty t"
      by simp
    finally show ?thesis .
  next
    case False
    then have "t = token_id (provider_token p)" using Cons.prems by auto
    then show ?thesis using False by (simp add: overlay_other)
  qed
qed

lemma overlay_sound:
  "overlayLocalProviders ps m t = Some prov
     \<Longrightarrow> (prov \<in> set ps \<and> token_id (provider_token prov) = t) \<or> m t = Some prov"
proof (induction ps arbitrary: m)
  case Nil
  then show ?case by simp
next
  case (Cons p ps)
  from Cons.prems
  have "overlayLocalProviders ps (m(token_id (provider_token p) \<mapsto> p)) t = Some prov"
    by simp
  from Cons.IH [OF this] show ?case by (auto split: if_splits)
qed

lemma overlay_own_binding:
  assumes "t \<in> (\<lambda>p. token_id (provider_token p)) ` set ps"
  shows "\<exists>own \<in> set ps. token_id (provider_token own) = t
           \<and> overlayLocalProviders ps m t = Some own"
proof -
  have "t \<in> dom (overlayLocalProviders ps Map.empty)"
    using assms by (simp add: overlay_dom)
  then obtain own where own: "overlayLocalProviders ps Map.empty t = Some own"
    by blast
  with overlay_sound [OF own] overlay_own [OF assms, of m] show ?thesis
    by auto
qed

lemma resolveParents_visited_grows_step:
  assumes config: "\<And>c vis m vis'. resolveAllProvidedTokens d c ac vis = Some (m, vis')
                      \<Longrightarrow> vis \<subseteq> vis'"
  shows "resolveParents d ps ac vis r = Some (m, vis') \<Longrightarrow> vis \<subseteq> vis'"
proof (induction ps arbitrary: vis r)
  case Nil
  then show ?case by simp
next
  case (Cons p ps)
  show ?case
  proof (cases "map_of ac p")
    case None
    then show ?thesis using Cons by simp
  next
    case (Some pc)
    show ?thesis
    proof (cases "p \<in> vis")
      case True
      then show ?thesis using Cons Some by simp
    next
      case False
      then obtain pm v1
        where parent: "resolveAllProvidedTokens d pc ac (insert p vis) = Some (pm, v1)"
          and rest: "resolveParents d ps ac v1 (r ++ pm) = Some (m, vis')"
        using Cons.prems Some by (auto split: option.splits)
      from config [OF parent] Cons.IH [OF rest] show ?thesis by blast
    qed
  qed
qed

lemma resolve_visited_grows:
  "resolveAllProvidedTokens d c ac vis = Some (m, vis') \<Longrightarrow> vis \<subseteq> vis'"
proof (induction d arbitrary: c vis m vis')
  case 0
  then show ?case by simp
next
  case (Suc d)
  from Suc.prems obtain r
    where "resolveParents d (parentConfigs c) ac vis Map.empty = Some (r, vis')"
    by (auto split: option.splits)
  then show ?case
    using resolveParents_visited_grows_step [of d ac] Suc.IH by blast
qed

lemma resolveParents_visited_grows:
  "resolveParents d ps ac vis r = Some (m, vis') \<Longrightarrow> vis \<subseteq> vis'"
  using resolveParents_visited_grows_step [of d ac] resolve_visited_grows by blast

lemma unvisited_card_less:
  assumes "map_of ac p = Some pc" and "p \<notin> vis"
  shows "card (dom (map_of ac) - insert p vis) < card (dom (map_of ac) - vis)"
proof -
  have "p \<in> dom (map_of ac) - vis" using assms by blast
  moreover have "finite (dom (map_of ac) - vis)" by (simp add: finite_dom_map_of)
  ultimately have "card (dom (map_of ac) - vis - {p}) < card (dom (map_of ac) - vis)"
    by (rule card_Diff1_less [rotated])
  moreover have "dom (map_of ac) - insert p vis = dom (map_of ac) - vis - {p}" by blast
  ultimately show ?thesis by simp
qed

lemma unvisited_card_mono:
  assumes "vis \<subseteq> vis'"
  shows "card (dom (map_of ac) - vis') \<le> card (dom (map_of ac) - vis)"
  by (rule card_mono) (use assms in \<open>auto simp add: finite_dom_map_of\<close>)

lemma resolveParents_returns_step:
  assumes config: "\<And>c vis. card (dom (map_of ac) - vis) < d
                      \<Longrightarrow> resolveAllProvidedTokens d c ac vis \<noteq> None"
  shows "card (dom (map_of ac) - vis) \<le> d \<Longrightarrow> resolveParents d ps ac vis r \<noteq> None"
proof (induction ps arbitrary: vis r)
  case Nil
  show ?case by simp
next
  case (Cons p ps)
  show ?case
  proof (cases "map_of ac p")
    case None
    then show ?thesis using Cons by simp
  next
    case (Some pc)
    show ?thesis
    proof (cases "p \<in> vis")
      case True
      then show ?thesis using Cons Some by simp
    next
      case False
      have "card (dom (map_of ac) - insert p vis) < d"
        using unvisited_card_less [OF Some False] Cons.prems by simp
      from config [OF this, of pc] obtain pm v1
        where parent: "resolveAllProvidedTokens d pc ac (insert p vis) = Some (pm, v1)"
        by auto
      have "vis \<subseteq> v1" using resolve_visited_grows [OF parent] by blast
      then have "card (dom (map_of ac) - v1) \<le> d"
        using unvisited_card_mono [of vis v1 ac] Cons.prems by simp
      from Cons.IH [OF this] show ?thesis
        using Some False parent by simp
    qed
  qed
qed

lemma resolve_returns:
  "card (dom (map_of ac) - vis) < d \<Longrightarrow> resolveAllProvidedTokens d c ac vis \<noteq> None"
proof (induction d arbitrary: c vis)
  case 0
  then show ?case by simp
next
  case (Suc d)
  then have "card (dom (map_of ac) - vis) \<le> d" by simp
  from resolveParents_returns_step [of ac d, OF Suc.IH this]
  show ?case by (auto split: option.splits)
qed

lemma unvisited_card_length: "card (dom (map_of ac) - vis) \<le> length ac"
proof -
  have "card (dom (map_of ac) - vis) \<le> card (dom (map_of ac))"
    by (rule card_mono) (auto simp add: finite_dom_map_of)
  also have "\<dots> = card (fst ` set ac)" by (simp add: dom_map_of_conv_image_fst)
  also have "\<dots> \<le> card (set ac)" by (rule card_image_le) simp
  also have "\<dots> \<le> length ac" by (rule card_length)
  finally show ?thesis .
qed

lemma covered_mono:
  assumes "covered ac m v q" and "dom m \<subseteq> dom m'" and "v \<subseteq> v'"
  shows "covered ac m' v' q"
  using assms unfolding covered_def by blast

lemma resolveParents_covers_step:
  assumes config: "\<And>c vis m vis'. resolveAllProvidedTokens d c ac vis = Some (m, vis')
      \<Longrightarrow> set (parentConfigs c) \<inter> dom (map_of ac) \<subseteq> vis' \<and> localTokens c \<subseteq> dom m
          \<and> (\<forall>q \<in> vis' - vis. covered ac m vis' q)"
  shows "resolveParents d ps ac vis r = Some (m, vis')
      \<Longrightarrow> set ps \<inter> dom (map_of ac) \<subseteq> vis' \<and> dom r \<subseteq> dom m
          \<and> (\<forall>q \<in> vis' - vis. covered ac m vis' q)"
proof (induction ps arbitrary: vis r)
  case Nil
  then show ?case by simp
next
  case (Cons p ps)
  show ?case
  proof (cases "map_of ac p")
    case None
    then have "resolveParents d ps ac vis r = Some (m, vis')" using Cons.prems by simp
    from Cons.IH [OF this] None show ?thesis by auto
  next
    case (Some pc)
    show ?thesis
    proof (cases "p \<in> vis")
      case True
      then have rest: "resolveParents d ps ac vis r = Some (m, vis')"
        using Cons.prems Some by simp
      have "p \<in> vis'" using resolveParents_visited_grows [OF rest] True by blast
      with Cons.IH [OF rest] show ?thesis by auto
    next
      case False
      then obtain pm v1
        where parent: "resolveAllProvidedTokens d pc ac (insert p vis) = Some (pm, v1)"
          and rest: "resolveParents d ps ac v1 (r ++ pm) = Some (m, vis')"
        using Cons.prems Some by (auto split: option.splits)
      have grow1: "insert p vis \<subseteq> v1" by (rule resolve_visited_grows [OF parent])
      have grow2: "v1 \<subseteq> vis'" by (rule resolveParents_visited_grows [OF rest])
      from config [OF parent]
      have pc_parents: "set (parentConfigs pc) \<inter> dom (map_of ac) \<subseteq> v1"
        and pc_tokens: "localTokens pc \<subseteq> dom pm"
        and pc_below: "\<forall>q \<in> v1 - insert p vis. covered ac pm v1 q"
        by simp_all
      from Cons.IH [OF rest]
      have rest_parents: "set ps \<inter> dom (map_of ac) \<subseteq> vis'"
        and rest_dom: "dom (r ++ pm) \<subseteq> dom m"
        and rest_below: "\<forall>q \<in> vis' - v1. covered ac m vis' q"
        by simp_all
      have pm_dom: "dom pm \<subseteq> dom m" using rest_dom by auto
      have "set (p # ps) \<inter> dom (map_of ac) \<subseteq> vis'"
        using rest_parents grow1 grow2 by auto
      moreover have "dom r \<subseteq> dom m" using rest_dom by auto
      moreover have "covered ac m vis' q" if q: "q \<in> vis' - vis" for q
      proof (cases "q \<in> v1")
        case False
        then show ?thesis using rest_below q by blast
      next
        case True
        show ?thesis
        proof (cases "q = p")
          case True
          have "covered ac pm v1 p"
            unfolding covered_def using Some pc_parents pc_tokens by simp
          then show ?thesis using covered_mono [OF _ pm_dom grow2] True by blast
        next
          case False
          then have "q \<in> v1 - insert p vis" using \<open>q \<in> v1\<close> q by blast
          then have "covered ac pm v1 q" using pc_below by blast
          then show ?thesis using covered_mono [OF _ pm_dom grow2] by blast
        qed
      qed
      ultimately show ?thesis by blast
    qed
  qed
qed

lemma resolve_covers:
  "resolveAllProvidedTokens d c ac vis = Some (m, vis')
      \<Longrightarrow> set (parentConfigs c) \<inter> dom (map_of ac) \<subseteq> vis' \<and> localTokens c \<subseteq> dom m
          \<and> (\<forall>q \<in> vis' - vis. covered ac m vis' q)"
proof (induction d arbitrary: c vis m vis')
  case 0
  then show ?case by simp
next
  case (Suc d)
  from Suc.prems obtain r
    where loop: "resolveParents d (parentConfigs c) ac vis Map.empty = Some (r, vis')"
      and m: "m = overlayLocalProviders (localProviders c) r"
    by (auto split: option.splits)
  have r_dom: "dom r \<subseteq> dom m" and own: "localTokens c \<subseteq> dom m"
    unfolding m by (auto simp add: overlay_dom localTokens_def)
  from resolveParents_covers_step [of d ac, OF Suc.IH loop]
  have "set (parentConfigs c) \<inter> dom (map_of ac) \<subseteq> vis'"
    and "\<forall>q \<in> vis' - vis. covered ac r vis' q"
    by simp_all
  then show ?case using own covered_mono [OF _ r_dom subset_refl] by blast
qed

lemma transitiveParent_extend:
  assumes "transitiveParent ac pc a"
    and "p \<in> set (parentConfigs c)" and "map_of ac p = Some pc"
  shows "transitiveParent ac c a"
  using assms
proof (induction rule: transitiveParent.induct)
  case (parent parentSymbol parentConfig)
  then show ?case
    using transitiveParent.parent [of p c ac pc]
      transitiveParent.grandparent [of ac c pc parentSymbol parentConfig]
    by blast
next
  case (grandparent ancestor parentSymbol parentConfig)
  then show ?case
    using transitiveParent.grandparent [of ac c ancestor parentSymbol parentConfig]
    by blast
qed

lemma resolveParents_sound_step:
  assumes config: "\<And>c vis m vis' t prov.
      resolveAllProvidedTokens d c ac vis = Some (m, vis') \<Longrightarrow> m t = Some prov
      \<Longrightarrow> registeredFor t prov c \<or> (\<exists>a. transitiveParent ac c a \<and> registeredFor t prov a)"
  shows "resolveParents d ps ac vis r = Some (m, vis') \<Longrightarrow> m t = Some prov
      \<Longrightarrow> r t = Some prov
          \<or> (\<exists>p \<in> set ps. \<exists>pc. map_of ac p = Some pc
                \<and> (registeredFor t prov pc
                    \<or> (\<exists>a. transitiveParent ac pc a \<and> registeredFor t prov a)))"
proof (induction ps arbitrary: vis r)
  case Nil
  then show ?case by simp
next
  case (Cons p ps)
  show ?case
  proof (cases "map_of ac p")
    case None
    then have "resolveParents d ps ac vis r = Some (m, vis')" using Cons.prems by simp
    from Cons.IH [OF this Cons.prems(2)] show ?thesis by auto
  next
    case (Some pc)
    show ?thesis
    proof (cases "p \<in> vis")
      case True
      then have "resolveParents d ps ac vis r = Some (m, vis')"
        using Cons.prems Some by simp
      from Cons.IH [OF this Cons.prems(2)] show ?thesis by auto
    next
      case False
      then obtain pm v1
        where parent: "resolveAllProvidedTokens d pc ac (insert p vis) = Some (pm, v1)"
          and rest: "resolveParents d ps ac v1 (r ++ pm) = Some (m, vis')"
        using Cons.prems Some by (auto split: option.splits)
      from Cons.IH [OF rest Cons.prems(2)]
      consider "(r ++ pm) t = Some prov"
        | "\<exists>p \<in> set ps. \<exists>pc. map_of ac p = Some pc
                \<and> (registeredFor t prov pc
                    \<or> (\<exists>a. transitiveParent ac pc a \<and> registeredFor t prov a))"
        by blast
      then show ?thesis
      proof cases
        case 1
        show ?thesis
        proof (cases "pm t")
          case None
          then show ?thesis using 1 by (simp add: map_add_def)
        next
          case (Some prov')
          then have "pm t = Some prov" using 1 by (simp add: map_add_def)
          from config [OF parent this] \<open>map_of ac p = Some pc\<close> show ?thesis by auto
        qed
      next
        case 2
        then show ?thesis by auto
      qed
    qed
  qed
qed

lemma resolve_sound:
  "resolveAllProvidedTokens d c ac vis = Some (m, vis') \<Longrightarrow> m t = Some prov
      \<Longrightarrow> registeredFor t prov c \<or> (\<exists>a. transitiveParent ac c a \<and> registeredFor t prov a)"
proof (induction d arbitrary: c vis m vis' t prov)
  case 0
  then show ?case by simp
next
  case (Suc d)
  from Suc.prems(1) obtain r
    where loop: "resolveParents d (parentConfigs c) ac vis Map.empty = Some (r, vis')"
      and m: "m = overlayLocalProviders (localProviders c) r"
    by (auto split: option.splits)
  from overlay_sound [of "localProviders c" r t prov] Suc.prems(2)
  consider "registeredFor t prov c" | "r t = Some prov"
    unfolding m registeredFor_def by blast
  then show ?case
  proof cases
    case 1
    then show ?thesis by blast
  next
    case 2
    have "Map.empty t = Some prov
          \<or> (\<exists>p \<in> set (parentConfigs c). \<exists>pc. map_of ac p = Some pc
                \<and> (registeredFor t prov pc
                    \<or> (\<exists>a. transitiveParent ac pc a \<and> registeredFor t prov a)))"
    proof (rule resolveParents_sound_step [where d = d and ac = ac, OF _ loop 2])
      fix c' v' m' v'' t' prov'
      assume "resolveAllProvidedTokens d c' ac v' = Some (m', v'')" and "m' t' = Some prov'"
      then show "registeredFor t' prov' c'
          \<or> (\<exists>a. transitiveParent ac c' a \<and> registeredFor t' prov' a)"
        by (rule Suc.IH)
    qed
    then obtain p pc where p: "p \<in> set (parentConfigs c)" and pc: "map_of ac p = Some pc"
      and origin: "registeredFor t prov pc
                    \<or> (\<exists>a. transitiveParent ac pc a \<and> registeredFor t prov a)"
      by auto
    from origin show ?thesis
    proof
      assume "registeredFor t prov pc"
      then show ?thesis using transitiveParent.parent [OF p pc] by blast
    next
      assume "\<exists>a. transitiveParent ac pc a \<and> registeredFor t prov a"
      then show ?thesis using transitiveParent_extend [OF _ p pc] by blast
    qed
  qed
qed

lemma transitiveParent_visited:
  assumes resolved: "resolveAllProvidedTokens d c ac vis = Some (m, vis')"
    and fresh: "\<forall>s a. transitiveParent ac c a \<longrightarrow> map_of ac s = Some a \<longrightarrow> s \<notin> vis"
    and anc: "transitiveParent ac c a"
  shows "\<exists>s. map_of ac s = Some a \<and> s \<in> vis' - vis"
  using anc
proof (induction rule: transitiveParent.induct)
  case (parent parentSymbol parentConfig)
  have "parentSymbol \<in> vis'"
    using resolve_covers [OF resolved] parent by blast
  moreover have "parentSymbol \<notin> vis"
    using fresh transitiveParent.parent [OF parent] parent(2) by blast
  ultimately show ?case using parent(2) by blast
next
  case (grandparent ancestor parentSymbol parentConfig)
  then obtain s where s: "map_of ac s = Some ancestor" "s \<in> vis' - vis" by blast
  then have "covered ac m vis' s" using resolve_covers [OF resolved] by blast
  then have "parentSymbol \<in> vis'"
    using s(1) grandparent(2,3) unfolding covered_def by blast
  moreover have "parentSymbol \<notin> vis"
    using fresh transitiveParent.grandparent [OF grandparent(1-3)] grandparent(3) by blast
  ultimately show ?case using grandparent(3) by blast
qed

text \<open>
  Claim C4, as the algorithm has it.  Called with room for more nested calls than there
  are configurations, \<^verbatim>\<open>resolveAllProvidedTokens\<close> returns, for every configuration \<open>C\<close> and
  every visited set, a mapping in which every token that \<open>C\<close> binds locally is bound to
  one of \<open>C\<close>'s own providers, the one that the overlay of \<open>C\<close>'s providers alone gives
  (own bindings win, being overlaid last), and in which every binding is a registration
  of its token in \<open>C\<close> or in one of its transitive parents.  When the visited set holds
  none of the transitive parents of \<open>C\<close> (it is empty when \<^verbatim>\<open>validateConfig\<close> calls), every
  token bound in a transitive parent of \<open>C\<close> is bound in the mapping too; a parent that is
  already in the visited set is passed over.
\<close>

theorem resolveAllProvidedTokens_contains_all_bindings:
  assumes "length allConfigs < depth"
  shows "\<exists>providedTokens visited'.
      resolveAllProvidedTokens depth config allConfigs visited = Some (providedTokens, visited')
    \<and> (\<forall>provider \<in> set (localProviders config).
          \<exists>own \<in> set (localProviders config).
            token_id (provider_token own) = token_id (provider_token provider)
            \<and> providedTokens (token_id (provider_token provider)) = Some own
            \<and> overlayLocalProviders (localProviders config) Map.empty
                  (token_id (provider_token provider)) = Some own)
    \<and> ((\<forall>parentSymbol parent. transitiveParent allConfigs config parent
            \<longrightarrow> map_of allConfigs parentSymbol = Some parent \<longrightarrow> parentSymbol \<notin> visited)
        \<longrightarrow> (\<forall>parent. transitiveParent allConfigs config parent \<longrightarrow>
              (\<forall>provider \<in> set (localProviders parent).
                 token_id (provider_token provider) \<in> dom providedTokens)))
    \<and> (\<forall>tokenId provider. providedTokens tokenId = Some provider \<longrightarrow>
          registeredFor tokenId provider config
          \<or> (\<exists>parent. transitiveParent allConfigs config parent
                \<and> registeredFor tokenId provider parent))"
proof -
  have "card (dom (map_of allConfigs) - visited) < depth"
    using unvisited_card_length [of allConfigs visited] assms(1) by simp
  from resolve_returns [OF this, of config] obtain providedTokens visited'
    where resolved: "resolveAllProvidedTokens depth config allConfigs visited
                       = Some (providedTokens, visited')"
    by auto
  obtain d where depth: "depth = Suc d" using assms(1) by (cases depth) simp_all
  from resolved obtain inherited
    where own: "providedTokens = overlayLocalProviders (localProviders config) inherited"
    unfolding depth by (auto split: option.splits)
  have local: "\<exists>own \<in> set (localProviders config).
            token_id (provider_token own) = token_id (provider_token provider)
            \<and> providedTokens (token_id (provider_token provider)) = Some own
            \<and> overlayLocalProviders (localProviders config) Map.empty
                  (token_id (provider_token provider)) = Some own"
    if "provider \<in> set (localProviders config)" for provider
  proof -
    have bound: "token_id (provider_token provider)
        \<in> (\<lambda>p. token_id (provider_token p)) ` set (localProviders config)"
      using that by blast
    from overlay_own_binding [OF bound, of Map.empty] obtain own
      where "own \<in> set (localProviders config)"
        and "token_id (provider_token own) = token_id (provider_token provider)"
        and "overlayLocalProviders (localProviders config) Map.empty
               (token_id (provider_token provider)) = Some own"
      by blast
    then show ?thesis
      unfolding own using overlay_own [OF bound, of inherited] by auto
  qed
  have inherited: "token_id (provider_token provider) \<in> dom providedTokens"
    if "\<forall>parentSymbol parent. transitiveParent allConfigs config parent
            \<longrightarrow> map_of allConfigs parentSymbol = Some parent \<longrightarrow> parentSymbol \<notin> visited"
      and "transitiveParent allConfigs config parent"
      and "provider \<in> set (localProviders parent)" for parent provider
  proof -
    from transitiveParent_visited [OF resolved that(1) that(2)] obtain s
      where "map_of allConfigs s = Some parent" and "s \<in> visited' - visited"
      by blast
    then have "localTokens parent \<subseteq> dom providedTokens"
      using resolve_covers [OF resolved] unfolding covered_def by blast
    then show ?thesis using that(3) unfolding localTokens_def by blast
  qed
  have sound: "registeredFor tokenId provider config
          \<or> (\<exists>parent. transitiveParent allConfigs config parent
                \<and> registeredFor tokenId provider parent)"
    if "providedTokens tokenId = Some provider" for tokenId provider
    by (rule resolve_sound [OF resolved that])
  from resolved local inherited sound show ?thesis by blast
qed

theorem resolveAllProvidedTokens_contains_all_bindings_witness:
  "\<exists>providedTokens visited'.
      resolveAllProvidedTokens 5 overridingBuilder sampleConfigs {}
        = Some (providedTokens, visited')
    \<and> providedTokens 5 = Some configOverride
    \<and> 3 \<in> dom providedTokens \<and> 4 \<in> dom providedTokens"
proof -
  have depth: "length sampleConfigs < 5"
    by (simp add: sampleConfigs_def)
  have fresh: "\<forall>parentSymbol parent. transitiveParent sampleConfigs overridingBuilder parent
           \<longrightarrow> map_of sampleConfigs parentSymbol = Some parent \<longrightarrow> parentSymbol \<notin> {}"
    by simp
  have parent: "transitiveParent sampleConfigs overridingBuilder servicesPartial"
    by (rule transitiveParent.parent [of 101])
       (simp_all add: overridingBuilder_def sampleConfigs_def)
  have locals: "localProviders overridingBuilder = [configOverride]"
    by (simp add: overridingBuilder_def)
  have inherited: "localProviders servicesPartial
      = [repositoryProvider, configProvider, productServiceProvider]"
    by (simp add: servicesPartial_def)
  have tokens: "token_id (provider_token configOverride) = 5"
    "token_id (provider_token repositoryProvider) = 3"
    "token_id (provider_token productServiceProvider) = 4"
    by (simp_all add: configOverride_def repositoryProvider_def productServiceProvider_def)
  from resolveAllProvidedTokens_contains_all_bindings [OF depth, of overridingBuilder "{}"]
  obtain providedTokens visited'
    where "resolveAllProvidedTokens 5 overridingBuilder sampleConfigs {}
             = Some (providedTokens, visited')"
      and own: "\<forall>provider \<in> set (localProviders overridingBuilder).
          \<exists>own \<in> set (localProviders overridingBuilder).
            token_id (provider_token own) = token_id (provider_token provider)
            \<and> providedTokens (token_id (provider_token provider)) = Some own
            \<and> overlayLocalProviders (localProviders overridingBuilder) Map.empty
                  (token_id (provider_token provider)) = Some own"
      and above: "(\<forall>parentSymbol parent.
            transitiveParent sampleConfigs overridingBuilder parent
            \<longrightarrow> map_of sampleConfigs parentSymbol = Some parent \<longrightarrow> parentSymbol \<notin> {})
        \<longrightarrow> (\<forall>parent. transitiveParent sampleConfigs overridingBuilder parent \<longrightarrow>
          (\<forall>provider \<in> set (localProviders parent).
             token_id (provider_token provider) \<in> dom providedTokens))"
    by blast
  moreover have "providedTokens 5 = Some configOverride"
    using own by (simp add: locals tokens)
  moreover have "3 \<in> dom providedTokens" "4 \<in> dom providedTokens"
    using above fresh parent inherited tokens by fastforce+
  ultimately show ?thesis by blast
qed

text \<open>
  Claim C4 as stated fails for a visited set that already holds a parent: the sample
  builder extends the sample partial, which binds the tokens 3, 5 and 4, and with the
  partial's symbol in the visited set the resolved mapping is empty.
\<close>

theorem visited_parent_not_resolved_counterexample:
  "transitiveParent sampleConfigs appBuilder servicesPartial
   \<and> repositoryProvider \<in> set (localProviders servicesPartial)
   \<and> token_id (provider_token repositoryProvider) = 3
   \<and> resolveAllProvidedTokens 5 appBuilder sampleConfigs {101} = Some (Map.empty, {101})"
proof -
  have "transitiveParent sampleConfigs appBuilder servicesPartial"
    by (rule transitiveParent.parent [of 101])
       (simp_all add: appBuilder_def sampleConfigs_def)
  moreover have "repositoryProvider \<in> set (localProviders servicesPartial)"
    by (simp add: servicesPartial_def)
  moreover have "token_id (provider_token repositoryProvider) = 3"
    by (simp add: repositoryProvider_def)
  moreover have "resolveAllProvidedTokens 5 appBuilder sampleConfigs {101}
      = Some (Map.empty, {101})"
    by (simp add: eval_nat_numeral sampleConfigs_def appBuilder_def)
  ultimately show ?thesis by simp
qed

subsection \<open>Type mismatches in the result of validate\<close>






end
